theory Spec2Isabelle
  imports Main "HOL-Library.Char_ord" "HOL-Library.List_Lexorder" "HOL-Library.Multiset"
begin

section \<open>Python values used by \<open>main.py\<close>\<close>

text \<open>
  Strings are \<open>string\<close>; \<open>sorted\<close> on a list of Python strings is \<open>sort\<close> with the
  lexicographic order on \<open>char list\<close>. The three string operations that discovery uses are
  written out: \<open>s.endswith(suf)\<close>, \<open>sub in s\<close> and the slice \<open>s[:-3]\<close>.
\<close>

definition endswith :: "string \<Rightarrow> string \<Rightarrow> bool" where
  "endswith s suf = (length suf \<le> length s \<and> drop (length s - length suf) s = suf)"

fun str_contains :: "string \<Rightarrow> string \<Rightarrow> bool" where
  "str_contains sub [] = (sub = [])"
| "str_contains sub (c # cs) = (take (length sub) (c # cs) = sub \<or> str_contains sub cs)"

definition strip3 :: "string \<Rightarrow> string" where
  "strip3 s = take (length s - 3) s"

text \<open>\<open>str(i)\<close> for a non-negative integer, as the f-string \<open>f"Client message {i}"\<close> needs it.\<close>

definition digit_char :: "nat \<Rightarrow> char" where
  "digit_char d = ''0123456789'' ! d"

function str_nat :: "nat \<Rightarrow> string" where
  "str_nat n = (if n < 10 then [digit_char n] else str_nat (n div 10) @ [digit_char (n mod 10)])"
  by pat_completeness auto
termination
  by (relation "measure id") auto

declare str_nat.simps [simp del]

text \<open>
  The path and string operations of \<open>generate_orchestrators\<close>: \<open>s.split(sep)\<close> (never
  empty: a string without the separator is its own single part), \<open>os.path.basename\<close> and
  \<open>os.path.join\<close> on POSIX paths.
\<close>

fun split_on :: "char \<Rightarrow> string \<Rightarrow> string list" where
  "split_on sep [] = [[]]"
| "split_on sep (c # cs) =
     (if c = sep then [] # split_on sep cs
      else (c # hd (split_on sep cs)) # tl (split_on sep cs))"

definition basename :: "string \<Rightarrow> string" where
  "basename p = rev (takeWhile (\<lambda>c. c \<noteq> CHR ''/'') (rev p))"

definition path_join :: "string \<Rightarrow> string \<Rightarrow> string" where
  "path_join a b =
     (if take 1 b = ''/'' then b
      else if a = [] \<or> endswith a ''/'' then a @ b
      else a @ ''/'' @ b)"

text \<open>
  A Python \<open>dict\<close> keeps insertion order and unique keys: an association list, where
  \<open>d[k] = v\<close> replaces the value in place when the key is present and appends otherwise.
\<close>

primrec dict_set :: "'k \<Rightarrow> 'v \<Rightarrow> ('k \<times> 'v) list \<Rightarrow> ('k \<times> 'v) list" where
  "dict_set k v [] = [(k, v)]"
| "dict_set k v (p # ps) = (if fst p = k then (k, v) # ps else p # dict_set k v ps)"

definition dict_has :: "'k \<Rightarrow> ('k \<times> 'v) list \<Rightarrow> bool" where
  "dict_has k d = (k \<in> set (map fst d))"

text \<open>
  Exceptions are values. \<open>PyException msg\<close> is an instance of \<open>Exception\<close> whose \<open>str\<close> is
  \<open>msg\<close>. \<open>SystemExit\<close> (what \<open>sys.exit\<close> raises) and \<open>KeyboardInterrupt\<close> derive from
  \<open>BaseException\<close> only, so a clause \<open>except Exception\<close> does not catch them. A call that
  returns normally is \<open>Inr\<close>.
\<close>

datatype exn = PyException string | SystemExit int | KeyboardInterrupt

section \<open>Observable effects and the framework state\<close>

datatype level = INFO | ERROR

datatype role = Server | Client

text \<open>
  The effects of the process, in program order: a \<open>logging\<close> record, the evaluation of
  \<open>await module.run(shared_libs, *args, **kwargs)\<close> on a module object, the start of a
  thread, and a file opened for writing by \<open>generate_orchestrators\<close> (the text written to
  it is not part of the trace). Module objects \<open>'m\<close>, the \<open>SharedLibs\<close> object \<open>'c\<close> and
  argument values \<open>'a\<close> are opaque.
\<close>

datatype ('m, 'c, 'a) effect =
    Log level string
  | AwaitRun 'm 'c "'a list" "(string \<times> 'a) list"
  | ThreadStart role
  | OpenForWrite string

text \<open>The fields of \<open>Framework\<close>, together with the effect trace of the process so far.\<close>

record ('m, 'c, 'a) framework =
  shared_libs :: 'c
  modules :: "(string \<times> 'm) list"
  module_types :: "string list"
  effects :: "('m, 'c, 'a) effect list"

definition logging_info :: "string \<Rightarrow> ('m, 'c, 'a) framework \<Rightarrow> ('m, 'c, 'a) framework" where
  "logging_info msg s = s\<lparr>effects := effects s @ [Log INFO msg]\<rparr>"

definition logging_error :: "string \<Rightarrow> ('m, 'c, 'a) framework \<Rightarrow> ('m, 'c, 'a) framework" where
  "logging_error msg s = s\<lparr>effects := effects s @ [Log ERROR msg]\<rparr>"

text \<open>\<open>Framework.__init__\<close>, run when the trace so far is \<open>es\<close>.\<close>

definition Framework_init :: "'c \<Rightarrow> ('m, 'c, 'a) effect list \<Rightarrow> ('m, 'c, 'a) framework" where
  "Framework_init libs es =
     logging_info ''Framework initialized successfully.''
       \<lparr>shared_libs = libs, modules = [],
        module_types = [''models'', ''controllers'', ''services'', ''utils'', ''security''],
        effects = es\<rparr>"

section \<open>Registration\<close>

text \<open>
  \<open>Framework.register_module\<close>. Both branches return \<open>None\<close>: the duplicate is reported by
  an error record and an early \<open>return\<close>, no exception is raised.
\<close>

definition register_module ::
  "string \<Rightarrow> 'm \<Rightarrow> ('m, 'c, 'a) framework \<Rightarrow> (exn + unit) \<times> ('m, 'c, 'a) framework" where
  "register_module name module s =
     (if dict_has name (modules s)
      then (Inr (), logging_error (''Module '' @ name @ '' already exists!'') s)
      else (Inr (), logging_info (''Module '' @ name @ '' registered successfully.'')
                      (s\<lparr>modules := dict_set name module (modules s)\<rparr>)))"

text \<open>A sequence of \<open>register_module\<close> calls, each returning before the next starts.\<close>

fun register_seq ::
  "(string \<times> 'm) list \<Rightarrow> ('m, 'c, 'a) framework \<Rightarrow> ('m, 'c, 'a) framework" where
  "register_seq [] s = s"
| "register_seq ((name, module) # calls) s = register_seq calls (snd (register_module name module s))"

section \<open>The environment\<close>

text \<open>
  What the program reads from outside itself.
  \<open>path_exists p\<close> is \<open>os.path.exists(p)\<close>; \<open>listdir p\<close> is \<open>Inr files\<close> when \<open>os.listdir(p)\<close>
  returns \<open>files\<close>, in the arbitrary order of the operating system, and \<open>Inl x\<close> when it
  raises \<open>x\<close> (the path is a file, or may not be read). Both describe the file tree as
  discovery reads it, after generation.
  \<open>import_module name\<close> is \<open>Inr module\<close> when \<open>importlib.import_module(name)\<close> returns and
  \<open>Inl x\<close> when it raises \<open>x\<close>, which need not be an \<open>Exception\<close>: importing runs the
  module, and the module may call \<open>sys.exit\<close>.
  \<open>await_run module libs args kwargs\<close> is the outcome of evaluating
  \<open>await module.run(libs, *args, **kwargs)\<close>, attribute lookup included.
  \<open>sqlite3_connect db\<close> is \<open>None\<close> when the connection is made and \<open>Some msg\<close> when
  \<open>sqlite3.connect(db)\<close> raises; \<open>new_shared_libs\<close> is the \<open>SharedLibs\<close> object constructed.
  \<open>os_walk base\<close> are the triples \<open>(root, dirs, files)\<close> that \<open>os.walk(base)\<close> yields, and
  \<open>open_w path\<close> is \<open>None\<close> when \<open>open(path, 'w')\<close> succeeds and \<open>Some msg\<close> when it raises.
\<close>

record ('m, 'c, 'a) env =
  path_exists :: "string \<Rightarrow> bool"
  listdir :: "string \<Rightarrow> exn + string list"
  import_module :: "string \<Rightarrow> exn + 'm"
  await_run :: "'m \<Rightarrow> 'c \<Rightarrow> 'a list \<Rightarrow> (string \<times> 'a) list \<Rightarrow> exn + unit"
  sqlite3_connect :: "string \<Rightarrow> string option"
  new_shared_libs :: 'c
  os_walk :: "string \<Rightarrow> (string \<times> string list \<times> string list) list"
  open_w :: "string \<Rightarrow> string option"

section \<open>Dispatch\<close>

text \<open>
  \<open>Framework.run_module\<close>: the miss is an error record and an early \<open>return\<close>; on a hit
  the outcome of the awaited entry point is the outcome of the call.
\<close>

definition run_module ::
  "('m, 'c, 'a) env \<Rightarrow> string \<Rightarrow> 'a list \<Rightarrow> (string \<times> 'a) list \<Rightarrow>
     ('m, 'c, 'a) framework \<Rightarrow> (exn + unit) \<times> ('m, 'c, 'a) framework" where
  "run_module e name args kwargs s =
     (case map_of (modules s) name of
        None \<Rightarrow> (Inr (), logging_error (''Module '' @ name @ '' not found!'') s)
      | Some module \<Rightarrow>
          (await_run e module (shared_libs s) args kwargs,
           s\<lparr>effects := effects s @ [AwaitRun module (shared_libs s) args kwargs]\<rparr>))"

text \<open>
  The loop \<open>for module in app.modules: asyncio.run(app.run_module(module))\<close> of
  \<open>titanoboa\<close>, over the names of the dict in insertion order. There is no \<open>try\<close> around
  the call: an exception leaves the loop.
\<close>

fun run_names ::
  "('m, 'c, 'a) env \<Rightarrow> string list \<Rightarrow> ('m, 'c, 'a) framework \<Rightarrow>
     (exn + unit) \<times> ('m, 'c, 'a) framework" where
  "run_names e [] s = (Inr (), s)"
| "run_names e (name # names) s =
     (case run_module e name [] [] s of
        (Inl x, s') \<Rightarrow> (Inl x, s')
      | (Inr u, s') \<Rightarrow> run_names e names s')"

definition run_all ::
  "('m, 'c, 'a) env \<Rightarrow> ('m, 'c, 'a) framework \<Rightarrow> (exn + unit) \<times> ('m, 'c, 'a) framework" where
  "run_all e s = run_names e (map fst (modules s)) s"

section \<open>Discovery\<close>

definition is_candidate :: "string \<Rightarrow> bool" where
  "is_candidate file = (endswith file ''.py'' \<and> str_contains ''orchestrate'' file)"

definition module_name_of :: "string \<Rightarrow> string \<Rightarrow> string" where
  "module_name_of module_type file = module_type @ ''.'' @ strip3 file"

text \<open>
  The clause \<open>except Exception as e\<close> of \<open>auto_discover_and_register\<close>, applied to the
  outcome of the \<open>try\<close> block: an \<open>Exception\<close> is logged and the loop goes on, any other
  exception propagates.
\<close>

definition except_Exception ::
  "string \<Rightarrow> (exn + unit) \<times> ('m, 'c, 'a) framework \<Rightarrow> (exn + unit) \<times> ('m, 'c, 'a) framework" where
  "except_Exception module_name r =
     (case r of
        (Inl (PyException msg), s) \<Rightarrow>
          (Inr (), logging_error (''Failed to load '' @ module_name @ '': '' @ msg) s)
      | (Inl x, s) \<Rightarrow> (Inl x, s)
      | (Inr u, s) \<Rightarrow> (Inr u, s))"

text \<open>The \<open>try\<close> statement: the import, then the registration, under the \<open>except\<close> clause.\<close>

definition load_candidate ::
  "('m, 'c, 'a) env \<Rightarrow> string \<Rightarrow> ('m, 'c, 'a) framework \<Rightarrow>
     (exn + unit) \<times> ('m, 'c, 'a) framework" where
  "load_candidate e module_name s =
     except_Exception module_name
       (case import_module e module_name of
          Inl x \<Rightarrow> (Inl x, s)
        | Inr module \<Rightarrow> register_module module_name module s)"

fun discover_files ::
  "('m, 'c, 'a) env \<Rightarrow> string \<Rightarrow> string list \<Rightarrow> ('m, 'c, 'a) framework \<Rightarrow>
     (exn + unit) \<times> ('m, 'c, 'a) framework" where
  "discover_files e module_type [] s = (Inr (), s)"
| "discover_files e module_type (file # files) s =
     (if is_candidate file
      then (case load_candidate e (module_name_of module_type file) s of
              (Inl x, s') \<Rightarrow> (Inl x, s')
            | (Inr u, s') \<Rightarrow> discover_files e module_type files s')
      else discover_files e module_type files s)"

text \<open>
  One category. \<open>os.listdir\<close> is called outside the \<open>try\<close>: what it raises leaves
  \<open>auto_discover_and_register\<close>.
\<close>

definition discover_type ::
  "('m, 'c, 'a) env \<Rightarrow> string \<Rightarrow> ('m, 'c, 'a) framework \<Rightarrow>
     (exn + unit) \<times> ('m, 'c, 'a) framework" where
  "discover_type e module_type s =
     (if path_exists e (''./'' @ module_type)
      then (case listdir e (''./'' @ module_type) of
              Inl x \<Rightarrow> (Inl x, s)
            | Inr files \<Rightarrow> discover_files e module_type (sort files) s)
      else (Inr (), s))"

fun discover_types ::
  "('m, 'c, 'a) env \<Rightarrow> string list \<Rightarrow> ('m, 'c, 'a) framework \<Rightarrow>
     (exn + unit) \<times> ('m, 'c, 'a) framework" where
  "discover_types e [] s = (Inr (), s)"
| "discover_types e (module_type # rest) s =
     (case discover_type e module_type s of
        (Inl x, s') \<Rightarrow> (Inl x, s')
      | (Inr u, s') \<Rightarrow> discover_types e rest s')"

definition auto_discover_and_register ::
  "('m, 'c, 'a) env \<Rightarrow> ('m, 'c, 'a) framework \<Rightarrow> (exn + unit) \<times> ('m, 'c, 'a) framework" where
  "auto_discover_and_register e s = discover_types e (module_types s) s"

section \<open>Server and client on the shared queue\<close>

text \<open>
  The \<open>Queue\<close> is a FIFO list: \<open>put\<close> appends, \<open>get\<close> takes the head. A thread's view is the
  queue and the records it logs. One loop iteration is taken as one step on the queue; what
  the other thread does to the queue in between is a parameter \<open>others\<close>, indexed by the
  iteration.
\<close>

record channel =
  queue :: "string list"
  records :: "(level \<times> string) list"

definition acknowledgment :: "string \<Rightarrow> string" where
  "acknowledgment data = ''Server acknowledged: '' @ data"

definition server_iteration :: "channel \<Rightarrow> channel" where
  "server_iteration s =
     (case queue s of
        [] \<Rightarrow> s
      | data # rest \<Rightarrow>
          s\<lparr>queue := rest @ [acknowledgment data],
            records := records s @ [(INFO, ''Server received: '' @ data)]\<rparr>)"

text \<open>
  \<open>Server.run_server\<close>: \<open>while True\<close> with no \<open>break\<close> and no \<open>return\<close>. The loop is run for
  a given number of iterations, starting with iteration \<open>i\<close>: it is then either still
  \<open>Running\<close>, in the state reached, or has \<open>Returned\<close>.
\<close>

datatype 's loop = Running 's | Returned 's

fun run_server ::
  "nat \<Rightarrow> (nat \<Rightarrow> string list \<Rightarrow> string list) \<Rightarrow> nat \<Rightarrow> channel \<Rightarrow> channel loop" where
  "run_server 0 others i s = Running s"
| "run_server (Suc n) others i s =
     run_server n others (Suc i) (server_iteration (s\<lparr>queue := others i (queue s)\<rparr>))"

definition client_message :: "nat \<Rightarrow> string" where
  "client_message i = ''Client message '' @ str_nat i"

text \<open>
  One iteration of \<open>Client.run_client\<close>; \<open>others i\<close> is what happens to the queue during
  \<open>threading.Event().wait(1)\<close>.
\<close>

definition client_iteration ::
  "(nat \<Rightarrow> string list \<Rightarrow> string list) \<Rightarrow> channel \<Rightarrow> nat \<Rightarrow> channel" where
  "client_iteration others s i =
     (let message = client_message i;
          s1 = s\<lparr>records := records s @ [(INFO, ''Client sending: '' @ message)]\<rparr>;
          s2 = s1\<lparr>queue := queue s1 @ [message]\<rparr>;
          s3 = s2\<lparr>queue := others i (queue s2)\<rparr>
      in case queue s3 of
           [] \<Rightarrow> s3
         | response # rest \<Rightarrow>
             s3\<lparr>queue := rest,
                records := records s3 @ [(INFO, ''Client received: '' @ response)]\<rparr>)"

definition run_client :: "(nat \<Rightarrow> string list \<Rightarrow> string list) \<Rightarrow> channel \<Rightarrow> channel" where
  "run_client others s = foldl (client_iteration others) s [0..<5]"

section \<open>Command line\<close>

text \<open>
  One folder of the walk of \<open>generate_orchestrators\<close>. A folder without plain Python
  files is skipped. Otherwise the orchestrator file is opened for writing inside the
  \<open>try\<close>; when the folder name has no second part after an underscore, the index
  \<open>split('_')[1]\<close> raises after the file was opened. Every exception of the \<open>try\<close> is an
  \<open>Exception\<close> and is logged.
\<close>

definition generate_folder ::
  "('m, 'c, 'a) env \<Rightarrow> ('m, 'c, 'a) effect list \<Rightarrow> string \<times> string list \<times> string list \<Rightarrow>
     ('m, 'c, 'a) effect list" where
  "generate_folder e es walked =
     (case walked of (root, dirs, files) \<Rightarrow>
        (let py_files = filter (\<lambda>f. endswith f ''.py'' \<and> \<not> str_contains ''orchestrate'' f) files
         in if py_files = [] then es
            else
              (let folder_name = basename root;
                   folder_number = hd (split_on CHR ''_'' folder_name);
                   orchestrator_name =
                     folder_number @ ''_orchestrate_'' @ str_nat (length py_files) @ ''.py'';
                   orchestrator_path = path_join root orchestrator_name
               in case open_w e orchestrator_path of
                    Some msg \<Rightarrow> es @ [Log ERROR (''Failed to create orchestrator: '' @ msg)]
                  | None \<Rightarrow>
                      (if length (split_on CHR ''_'' folder_name) < 2
                       then es @ [OpenForWrite orchestrator_path,
                                  Log ERROR ''Failed to create orchestrator: list index out of range'']
                       else es @ [OpenForWrite orchestrator_path,
                                  Log INFO (''Orchestrator '' @ orchestrator_name @
                                            '' generated successfully.'')]))))"

definition generate_orchestrators ::
  "('m, 'c, 'a) env \<Rightarrow> string \<Rightarrow> ('m, 'c, 'a) effect list \<Rightarrow> ('m, 'c, 'a) effect list" where
  "generate_orchestrators e base_dir es =
     foldl (generate_folder e)
       (es @ [Log INFO (''Generating orchestrators for: '' @ base_dir)]) (os_walk e base_dir)"

text \<open>
  \<open>SharedLibs.__init__\<close>: \<open>setup_logger\<close>, then the queue, the security manager and the
  optimizer (no effect of their own), then \<open>setup_database\<close>, which ends the process with
  \<open>sys.exit(1)\<close> when the connection fails.
\<close>

definition SharedLibs_init ::
  "('m, 'c, 'a) env \<Rightarrow> ('m, 'c, 'a) effect list \<Rightarrow> (exn + 'c) \<times> ('m, 'c, 'a) effect list" where
  "SharedLibs_init e es =
     (let es1 = es @ [Log INFO ''Setting up logger...'']
      in case sqlite3_connect e ''app.db'' of
           None \<Rightarrow> (Inr (new_shared_libs e), es1 @ [Log INFO ''Database connected successfully.''])
         | Some msg \<Rightarrow>
             (Inl (SystemExit 1), es1 @ [Log ERROR (''Error connecting to the database: '' @ msg)]))"

definition Server_start :: "('m, 'c, 'a) framework \<Rightarrow> ('m, 'c, 'a) framework" where
  "Server_start s = (logging_info ''Starting server...'' s)\<lparr>effects :=
     effects (logging_info ''Starting server...'' s) @ [ThreadStart Server]\<rparr>"

definition Client_start :: "('m, 'c, 'a) framework \<Rightarrow> ('m, 'c, 'a) framework" where
  "Client_start s = (logging_info ''Starting client...'' s)\<lparr>effects :=
     effects (logging_info ''Starting client...'' s) @ [ThreadStart Client]\<rparr>"

text \<open>
  \<open>titanoboa\<close>. An exception of the shared libraries or of discovery ends it there; the
  threads are started after discovery and before the dispatch loop.
\<close>

definition titanoboa ::
  "('m, 'c, 'a) env \<Rightarrow> string \<Rightarrow> ('m, 'c, 'a) effect list \<Rightarrow>
     (exn + unit) \<times> ('m, 'c, 'a) effect list" where
  "titanoboa e project_name es =
     (let es1 = es @ [Log INFO (''Initializing project: '' @ project_name)];
          es2 = generate_orchestrators e ''./'' es1
      in case SharedLibs_init e es2 of
           (Inl x, es3) \<Rightarrow> (Inl x, es3)
         | (Inr libs, es3) \<Rightarrow>
             (case auto_discover_and_register e (Framework_init libs es3) of
                (Inl x, app1) \<Rightarrow> (Inl x, effects app1)
              | (Inr u, app1) \<Rightarrow>
                  (let app2 = Server_start app1;
                       app3 = Client_start app2
                   in case run_all e app3 of (r, app4) \<Rightarrow> (r, effects app4))))"

text \<open>\<open>main\<close>, from the parsed arguments on.\<close>

definition main ::
  "('m, 'c, 'a) env \<Rightarrow> string \<Rightarrow> string \<Rightarrow> ('m, 'c, 'a) effect list \<Rightarrow>
     (exn + unit) \<times> ('m, 'c, 'a) effect list" where
  "main e command project_name es =
     (if command = ''init'' then titanoboa e project_name es
      else (Inr (), es @ [Log ERROR ''Unknown command'']))"

section \<open>Notions used to state the properties\<close>

text \<open>
  The units a sequential run reaches when it stops at the first failing one: every unit up
  to and including the first for which \<open>fails\<close> holds.
\<close>

fun reached :: "('x \<Rightarrow> bool) \<Rightarrow> 'x list \<Rightarrow> 'x list" where
  "reached fails [] = []"
| "reached fails (x # xs) = (if fails x then [x] else x # reached fails xs)"

text \<open>The records that \<open>run_client\<close> writes before a \<open>put\<close> and after a \<open>get\<close>.\<close>

definition is_sending :: "level \<times> string \<Rightarrow> bool" where
  "is_sending r = (take 16 (snd r) = ''Client sending: '')"

definition is_received :: "level \<times> string \<Rightarrow> bool" where
  "is_received r = (take 17 (snd r) = ''Client received: '')"

text \<open>
  Concrete scenarios. Two frameworks, holding the units \<open>a\<close>, \<open>b\<close> and \<open>a\<close>, \<open>b\<close>, \<open>c\<close>,
  registered in that order. An environment in which the entry point of unit \<open>2\<close> raises;
  \<open>./models\<close> holds three candidates and a text file, of which the candidate in the middle
  of the sorted order fails to import, and \<open>./utils\<close> holds one candidate; the walk of
  generation meets the root folder, a folder without plain Python files and a numbered
  folder.
\<close>

definition two_units :: "(nat, nat, nat) framework" where
  "two_units = register_seq [(''a'', 1), (''b'', 2)] (Framework_init 7 [])"

definition three_units :: "(nat, nat, nat) framework" where
  "three_units = register_seq [(''a'', 1), (''b'', 2), (''c'', 3)] (Framework_init 7 [])"

definition demo_env :: "(nat, nat, nat) env" where
  "demo_env =
     \<lparr>path_exists = (\<lambda>p. p = ''./models'' \<or> p = ''./utils''),
      listdir = (\<lambda>p.
        if p = ''./models''
        then Inr [''c_orchestrate.py'', ''notes.txt'', ''a_orchestrate.py'', ''b_orchestrate.py'']
        else if p = ''./utils'' then Inr [''u_orchestrate.py'']
        else Inl (PyException ''No such file or directory'')),
      import_module = (\<lambda>n.
        if n = ''models.a_orchestrate'' then Inr 1
        else if n = ''models.c_orchestrate'' then Inr 3
        else if n = ''utils.u_orchestrate'' then Inr 4
        else Inl (PyException ''No module'')),
      await_run = (\<lambda>m c args kwargs. if m = 2 then Inl (PyException ''boom'') else Inr ()),
      sqlite3_connect = (\<lambda>db. None),
      new_shared_libs = 7,
      os_walk = (\<lambda>base. if base = ''./''
        then [(''./'', [''models'', ''1_core''], [''main.py'']),
              (''./models'', [], [''a_orchestrate.py'', ''notes.txt'']),
              (''./1_core'', [], [''x.py'', ''y.py''])]
        else []),
      open_w = (\<lambda>p. None)\<rparr>"

text \<open>
  Discovery, described from outside. \<open>listed_candidates\<close> are the module names of the
  candidate files of the listed category directories, in the order in which the
  operating system lists them; \<open>candidates\<close> are the same names with each directory taken
  in sorted filename order. A candidate \<open>loads\<close> when its import returns; \<open>loaded\<close> pairs
  the candidates that load with their module objects. \<open>candidate_record\<close> is the record
  that a candidate with a fresh name leaves in the log (\<open>exn_str\<close> being \<open>str\<close> of an
  exception), and \<open>is_load_failure\<close> recognises the record of a failed import.
  \<open>load_all\<close> runs the \<open>try\<close> statement over a list of names, as the loop over the files
  does. \<open>only_logs\<close> relates two states of which the second has the shared libraries of
  the first, its trace extended by log records, and unique keys if the first has.
\<close>

fun load_all ::
  "('m, 'c, 'a) env \<Rightarrow> string list \<Rightarrow> ('m, 'c, 'a) framework \<Rightarrow>
     (exn + unit) \<times> ('m, 'c, 'a) framework" where
  "load_all e [] s = (Inr (), s)"
| "load_all e (n # ns) s =
     (case load_candidate e n s of
        (Inl x, s') \<Rightarrow> (Inl x, s')
      | (Inr u, s') \<Rightarrow> load_all e ns s')"


definition candidates :: "('m, 'c, 'a) env \<Rightarrow> string list \<Rightarrow> string list" where
  "candidates e types =
     concat (map (\<lambda>t. if path_exists e (''./'' @ t)
                       then (case listdir e (''./'' @ t) of
                               Inl x \<Rightarrow> []
                             | Inr files \<Rightarrow> map (module_name_of t) (filter is_candidate (sort files)))
                       else []) types)"


definition loaded :: "('m, 'c, 'a) env \<Rightarrow> string list \<Rightarrow> (string \<times> 'm) list" where
  "loaded e ns = concat (map (\<lambda>n. case import_module e n of Inl x \<Rightarrow> [] | Inr m \<Rightarrow> [(n, m)]) ns)"

definition str_int :: "int \<Rightarrow> string" where
  "str_int i = (if i < 0 then ''-'' @ str_nat (nat (- i)) else str_nat (nat i))"

fun exn_str :: "exn \<Rightarrow> string" where
  "exn_str (PyException msg) = msg"
| "exn_str (SystemExit code) = str_int code"
| "exn_str KeyboardInterrupt = []"

definition candidate_record :: "('m, 'c, 'a) env \<Rightarrow> string \<Rightarrow> ('m, 'c, 'a) effect" where
  "candidate_record e n =
     (case import_module e n of
        Inl x \<Rightarrow> Log ERROR (''Failed to load '' @ n @ '': '' @ exn_str x)
      | Inr module \<Rightarrow> Log INFO (''Module '' @ n @ '' registered successfully.''))"


fun is_log :: "('m, 'c, 'a) effect \<Rightarrow> bool" where
  "is_log (Log lv msg) = True"
| "is_log _ = False"

definition only_logs :: "('m, 'c, 'a) framework \<Rightarrow> ('m, 'c, 'a) framework \<Rightarrow> bool" where
  "only_logs s s' =
     ((\<exists>logs. effects s' = effects s @ logs \<and> list_all is_log logs) \<and>
      shared_libs s' = shared_libs s \<and>
      (distinct (map fst (modules s)) \<longrightarrow> distinct (map fst (modules s'))))"


definition exit_env :: "(nat, nat, nat) env" where
  "exit_env = demo_env\<lparr>import_module := (\<lambda>n.
        if n = ''models.a_orchestrate'' then Inl (SystemExit 1) else import_module demo_env n)\<rparr>"

text \<open>
  The start-up sequence, described from outside. \<open>started\<close> is the framework as
  \<open>titanoboa\<close> constructs it when the database connects: the trace holds the records of
  initialisation, generation and the shared libraries. \<open>is_generation\<close> recognises the
  effects of generation. \<open>dispatch_before_threads\<close> says of a trace that no entry point is
  awaited once a thread has been started. \<open>dispatch_outcome\<close> is the outcome of awaiting
  the units in order: that of the first one that raises, if any.
\<close>

fun is_generation :: "('m, 'c, 'a) effect \<Rightarrow> bool" where
  "is_generation (Log lv msg) = True"
| "is_generation (OpenForWrite path) = True"
| "is_generation _ = False"

fun is_await :: "('m, 'c, 'a) effect \<Rightarrow> bool" where
  "is_await (AwaitRun m c args kwargs) = True"
| "is_await _ = False"

fun is_thread_start :: "('m, 'c, 'a) effect \<Rightarrow> bool" where
  "is_thread_start (ThreadStart r) = True"
| "is_thread_start _ = False"

definition dispatch_before_threads :: "('m, 'c, 'a) effect list \<Rightarrow> bool" where
  "dispatch_before_threads es = (\<not> list_ex is_await (dropWhile (\<lambda>x. \<not> is_thread_start x) es))"

definition dispatch_outcome :: "('x \<Rightarrow> exn + unit) \<Rightarrow> 'x list \<Rightarrow> exn + unit" where
  "dispatch_outcome run units =
     (case find (\<lambda>m. isl (run m)) units of None \<Rightarrow> Inr () | Some m \<Rightarrow> run m)"

definition started ::
  "('m, 'c, 'a) env \<Rightarrow> string \<Rightarrow> ('m, 'c, 'a) effect list \<Rightarrow> ('m, 'c, 'a) framework" where
  "started e project_name es =
     Framework_init (new_shared_libs e)
       (generate_orchestrators e ''./'' (es @ [Log INFO (''Initializing project: '' @ project_name)]) @
        [Log INFO ''Setting up logger...'', Log INFO ''Database connected successfully.''])"

text \<open>The scenario with every entry point completing.\<close>

definition quiet_env :: "(nat, nat, nat) env" where
  "quiet_env = demo_env\<lparr>await_run := (\<lambda>m c args kwargs. Inr ())\<rparr>"

section \<open>Properties of registration\<close>

lemma dict_set_absent: "\<not> dict_has k d \<Longrightarrow> dict_set k v d = d @ [(k, v)]"
  by (induction d) (auto simp: dict_has_def)

lemma register_module_present:
  "dict_has name (modules s) \<Longrightarrow>
     register_module name module s =
       (Inr (), s\<lparr>effects := effects s @ [Log ERROR (''Module '' @ name @ '' already exists!'')]\<rparr>)"
  by (simp add: register_module_def logging_error_def)

lemma register_module_absent:
  "\<not> dict_has name (modules s) \<Longrightarrow>
     register_module name module s =
       (Inr (), s\<lparr>modules := modules s @ [(name, module)],
                  effects := effects s @ [Log INFO (''Module '' @ name @ '' registered successfully.'')]\<rparr>)"
  by (simp add: register_module_def logging_info_def dict_set_absent)

lemma register_module_keeps:
  assumes "distinct (map fst (modules s))"
  shows "distinct (map fst (modules (snd (register_module name module s)))) \<and>
     map_of (modules (snd (register_module name module s))) =
       map_of (modules s @ [(name, module)])"
proof (cases "dict_has name (modules s)")
  case True
  then have "map_of (modules s) name \<noteq> None"
    by (simp add: dict_has_def map_of_eq_None_iff)
  then have "map_of (modules s @ [(name, module)]) = map_of (modules s)"
    by (auto simp: map_add_def fun_eq_iff split: option.splits)
  with True assms show ?thesis
    by (simp add: register_module_present)
next
  case False
  with assms show ?thesis
    by (simp add: register_module_absent dict_has_def)
qed

lemma register_seq_keeps:
  "distinct (map fst (modules s)) \<Longrightarrow>
     distinct (map fst (modules (register_seq calls s))) \<and>
     map_of (modules (register_seq calls s)) = map_of (modules s @ calls)"
proof (induction calls arbitrary: s)
  case Nil
  then show ?case by simp
next
  case (Cons c calls)
  obtain name module where c: "c = (name, module)" by (cases c)
  let ?s = "snd (register_module name module s)"
  from Cons.prems have k: "distinct (map fst (modules ?s))"
    and m: "map_of (modules ?s) = map_of (modules s @ [(name, module)])"
    using register_module_keeps [of s name module] by simp_all
  have "map_of (modules ?s @ calls) = map_of (modules s @ (name, module) # calls)"
    using m by (auto simp: fun_eq_iff map_add_def split: option.splits)
  with Cons.IH [OF k] show ?case
    by (simp only: c register_seq.simps)
qed

lemma two_units_eq:
  "two_units =
     \<lparr>shared_libs = 7, modules = [(''a'', 1), (''b'', 2)],
      module_types = [''models'', ''controllers'', ''services'', ''utils'', ''security''],
      effects = [Log INFO ''Framework initialized successfully.'',
                 Log INFO ''Module a registered successfully.'',
                 Log INFO ''Module b registered successfully.'']\<rparr>"
  by (simp add: two_units_def Framework_init_def register_module_def logging_info_def dict_has_def)

text \<open>
  Registering \<open>a\<close> a second time raises nothing: the call returns \<open>None\<close> as a successful
  one does, and the duplicate shows in the log alone.
\<close>

theorem register_duplicate_counterexample:
  "register_module ''a'' 3 two_units =
     (Inr (), two_units\<lparr>effects := effects two_units @ [Log ERROR ''Module a already exists!'']\<rparr>)"
  by (simp add: two_units_eq register_module_def dict_has_def logging_error_def)

text \<open>
  C1 (as amended). After any sequence of \<open>register_module\<close> calls on a registry, every name
  is held once and is bound to the descriptor of its earliest registration; a further
  \<open>register_module\<close> with a name already present returns normally, adds one error record
  \<open>Module <name> already exists!\<close> and changes nothing else, so the descriptor registered
  first and the size of the registry stay as they were.
\<close>

theorem register_at_most_once:
  assumes "distinct (map fst (modules s))"
  shows "distinct (map fst (modules (register_seq calls s))) \<and>
         map_of (modules (register_seq calls s)) = map_of (modules s @ calls) \<and>
         (dict_has name (modules (register_seq calls s)) \<longrightarrow>
            register_module name d (register_seq calls s) =
              (Inr (), (register_seq calls s)\<lparr>effects := effects (register_seq calls s) @
                         [Log ERROR (''Module '' @ name @ '' already exists!'')]\<rparr>))"
  using register_seq_keeps [OF assms, of calls]
    register_module_present [of name "register_seq calls s" d]
  by blast

theorem register_at_most_once_witness:
  "distinct (map fst (modules (Framework_init (7::nat) ([]::(nat, nat, nat) effect list)))) \<and>
   dict_has ''a'' (modules two_units) \<and>
   map_of (modules two_units) ''a'' = Some 1 \<and>
   modules (snd (register_module ''a'' 3 two_units)) = [(''a'', 1), (''b'', 2)]"
  using register_at_most_once [of "Framework_init (7::nat) ([]::(nat, nat, nat) effect list)"
      "[(''a'', 1), (''b'', 2)]" "''a''" 3, folded two_units_def]
  by (simp add: two_units_eq dict_has_def Framework_init_def logging_info_def)

section \<open>Properties of dispatch\<close>

lemma three_units_eq:
  "three_units =
     \<lparr>shared_libs = 7, modules = [(''a'', 1), (''b'', 2), (''c'', 3)],
      module_types = [''models'', ''controllers'', ''services'', ''utils'', ''security''],
      effects = [Log INFO ''Framework initialized successfully.'',
                 Log INFO ''Module a registered successfully.'',
                 Log INFO ''Module b registered successfully.'',
                 Log INFO ''Module c registered successfully.'']\<rparr>"
  by (simp add: three_units_def Framework_init_def register_module_def logging_info_def dict_has_def)

lemma run_module_hit:
  "map_of (modules s) name = Some d \<Longrightarrow>
     run_module e name args kwargs s =
       (await_run e d (shared_libs s) args kwargs,
        s\<lparr>effects := effects s @ [AwaitRun d (shared_libs s) args kwargs]\<rparr>)"
  by (simp add: run_module_def)

lemma run_module_miss:
  "\<not> dict_has name (modules s) \<Longrightarrow>
     run_module e name args kwargs s =
       (Inr (), s\<lparr>effects := effects s @ [Log ERROR (''Module '' @ name @ '' not found!'')]\<rparr>)"
  by (simp add: run_module_def dict_has_def map_of_eq_None_iff [symmetric] logging_error_def
      del: map_of_eq_None_iff)

lemma reached_none: "\<forall>x\<in>set xs. \<not> fails x \<Longrightarrow> reached fails xs = xs"
  by (induction xs) auto

lemma run_names_trace:
  assumes "\<forall>p\<in>set ps. map_of (modules s) (fst p) = Some (snd p)"
  shows "snd (run_names e (map fst ps) s) =
           s\<lparr>effects := effects s @
                map (\<lambda>m. AwaitRun m (shared_libs s) [] [])
                  (reached (\<lambda>m. isl (await_run e m (shared_libs s) [] [])) (map snd ps))\<rparr> \<and>
         isl (fst (run_names e (map fst ps) s)) =
           (\<exists>m\<in>set (map snd ps). isl (await_run e m (shared_libs s) [] []))"
  using assms
proof (induction ps arbitrary: s)
  case Nil
  then show ?case by simp
next
  case (Cons p ps)
  let ?s' = "s\<lparr>effects := effects s @ [AwaitRun (snd p) (shared_libs s) [] []]\<rparr>"
  from Cons.prems have hit: "map_of (modules s) (fst p) = Some (snd p)" by simp
  have step: "run_module e (fst p) [] [] s = (await_run e (snd p) (shared_libs s) [] [], ?s')"
    using run_module_hit [OF hit] .
  show ?case
  proof (cases "await_run e (snd p) (shared_libs s) [] []")
    case (Inl x)
    with step show ?thesis by simp
  next
    case (Inr u)
    from Cons.prems have "\<forall>q\<in>set ps. map_of (modules ?s') (fst q) = Some (snd q)" by simp
    from Cons.IH [OF this] Inr step show ?thesis by simp
  qed
qed

lemma dispatch_outcome_Nil: "dispatch_outcome run [] = Inr ()"
  by (simp add: dispatch_outcome_def)

lemma dispatch_outcome_Cons:
  "dispatch_outcome run (m # ms) = (case run m of Inl x \<Rightarrow> Inl x | Inr u \<Rightarrow> dispatch_outcome run ms)"
  by (cases "run m") (simp_all add: dispatch_outcome_def)

lemma dispatch_outcome_none:
  "\<forall>m\<in>set ms. \<not> isl (run m) \<Longrightarrow> dispatch_outcome run ms = Inr ()"
  by (induction ms) (auto simp: dispatch_outcome_Nil dispatch_outcome_Cons split: sum.splits)

lemma run_names_outcome:
  assumes "\<forall>p\<in>set ps. map_of (modules s) (fst p) = Some (snd p)"
  shows "fst (run_names e (map fst ps) s) =
           dispatch_outcome (\<lambda>m. await_run e m (shared_libs s) [] []) (map snd ps)"
  using assms
proof (induction ps arbitrary: s)
  case Nil
  then show ?case by (simp add: dispatch_outcome_Nil)
next
  case (Cons p ps)
  let ?s' = "s\<lparr>effects := effects s @ [AwaitRun (snd p) (shared_libs s) [] []]\<rparr>"
  from Cons.prems have hit: "map_of (modules s) (fst p) = Some (snd p)" by simp
  have step: "run_module e (fst p) [] [] s = (await_run e (snd p) (shared_libs s) [] [], ?s')"
    using run_module_hit [OF hit] .
  show ?case
  proof (cases "await_run e (snd p) (shared_libs s) [] []")
    case (Inl x)
    with step show ?thesis by (simp add: dispatch_outcome_Cons)
  next
    case (Inr u)
    from Cons.prems have "\<forall>q\<in>set ps. map_of (modules ?s') (fst q) = Some (snd q)" by simp
    from Cons.IH [OF this] Inr step show ?thesis by (simp add: dispatch_outcome_Cons)
  qed
qed

text \<open>
  With \<open>b\<close> failing, the loop ends at \<open>b\<close>: the exception leaves \<open>run_all\<close>, nothing is
  logged and the entry point of \<open>c\<close> is never awaited.
\<close>

theorem run_all_failure_counterexample:
  "run_all demo_env three_units =
     (Inl (PyException ''boom''),
      three_units\<lparr>effects := effects three_units @ [AwaitRun 1 7 [] [], AwaitRun 2 7 [] []]\<rparr>)"
  by (simp add: three_units_eq run_all_def run_module_def demo_env_def)

text \<open>
  C2 (as amended). \<open>run_all\<close> awaits the entry points of the registered units one after the
  other in registration order, passing the shared context and no further argument, and
  stops at the first one that raises: the units before it and the failing unit have been
  invoked once each, no later unit is invoked, nothing is logged for the failure, and the
  outcome of \<open>run_all\<close> is the very exception that this entry point raised. When no entry
  point raises, \<open>run_all\<close> returns normally and every registered unit has been invoked
  exactly once, in registration order. Nothing but the trace is changed.
\<close>

theorem run_all_stops_at_first_failure:
  assumes "distinct (map fst (modules s))"
  shows "snd (run_all e s) =
           s\<lparr>effects := effects s @
                map (\<lambda>m. AwaitRun m (shared_libs s) [] [])
                  (reached (\<lambda>m. isl (await_run e m (shared_libs s) [] [])) (map snd (modules s)))\<rparr> \<and>
         fst (run_all e s) =
           (case find (\<lambda>m. isl (await_run e m (shared_libs s) [] [])) (map snd (modules s)) of
              None \<Rightarrow> Inr ()
            | Some m \<Rightarrow> await_run e m (shared_libs s) [] []) \<and>
         isl (fst (run_all e s)) =
           (\<exists>m\<in>set (map snd (modules s)). isl (await_run e m (shared_libs s) [] [])) \<and>
         ((\<forall>m\<in>set (map snd (modules s)). \<not> isl (await_run e m (shared_libs s) [] [])) \<longrightarrow>
            fst (run_all e s) = Inr () \<and>
            effects (snd (run_all e s)) =
              effects s @ map (\<lambda>m. AwaitRun m (shared_libs s) [] []) (map snd (modules s)))"
proof -
  let ?run = "\<lambda>m. await_run e m (shared_libs s) [] []"
  from assms have hits: "\<forall>p\<in>set (modules s). map_of (modules s) (fst p) = Some (snd p)"
    by (auto intro: map_of_is_SomeI)
  note t = run_names_trace [OF hits, of e, folded run_all_def]
  have o: "fst (run_all e s) =
      (case find (\<lambda>m. isl (?run m)) (map snd (modules s)) of
         None \<Rightarrow> Inr () | Some m \<Rightarrow> ?run m)"
    using run_names_outcome [OF hits, of e] by (simp only: run_all_def dispatch_outcome_def)
  have n: "fst (run_all e s) = Inr () \<and>
      effects (snd (run_all e s)) = effects s @ map (\<lambda>m. AwaitRun m (shared_libs s) [] []) (map snd (modules s))"
    if none: "\<forall>m\<in>set (map snd (modules s)). \<not> isl (?run m)"
  proof -
    from none have "fst (run_all e s) = Inr ()"
      using run_names_outcome [OF hits, of e] dispatch_outcome_none [of "map snd (modules s)" ?run]
      by (simp only: run_all_def)
    moreover from none have "reached (\<lambda>m. isl (?run m)) (map snd (modules s)) = map snd (modules s)"
      by (rule reached_none)
    ultimately show ?thesis
      using t by simp
  qed
  from t o n show ?thesis by blast
qed

theorem run_all_stops_at_first_failure_witness:
  "distinct (map fst (modules three_units)) \<and>
   map snd (modules three_units) = [1, 2, 3] \<and>
   await_run demo_env 1 7 [] [] = Inr () \<and>
   await_run demo_env 2 7 [] [] = Inl (PyException ''boom'') \<and>
   run_all demo_env three_units =
     (Inl (PyException ''boom''),
      three_units\<lparr>effects := effects three_units @ [AwaitRun 1 7 [] [], AwaitRun 2 7 [] []]\<rparr>) \<and>
   run_all (demo_env\<lparr>await_run := \<lambda>m c a k. Inr ()\<rparr>) three_units =
     (Inr (),
      three_units\<lparr>effects := effects three_units @
         [AwaitRun 1 7 [] [], AwaitRun 2 7 [] [], AwaitRun 3 7 [] []]\<rparr>)"
proof -
  have d: "distinct (map fst (modules three_units))"
    and m: "map snd (modules three_units) = [1, 2, 3]"
    and l: "shared_libs three_units = 7"
    by (simp_all add: three_units_eq)
  have r: "await_run demo_env 1 7 [] [] = Inr ()"
    "await_run demo_env 2 7 [] [] = Inl (PyException ''boom'')"
    by (simp_all add: demo_env_def)
  from run_all_stops_at_first_failure [OF d, of demo_env]
  have a: "run_all demo_env three_units =
     (Inl (PyException ''boom''),
      three_units\<lparr>effects := effects three_units @ [AwaitRun 1 7 [] [], AwaitRun 2 7 [] []]\<rparr>)"
    unfolding m l by (simp add: demo_env_def prod_eq_iff)
  from run_all_stops_at_first_failure [OF d, of "demo_env\<lparr>await_run := \<lambda>m c a k. Inr ()\<rparr>"]
  have b: "run_all (demo_env\<lparr>await_run := \<lambda>m c a k. Inr ()\<rparr>) three_units =
     (Inr (),
      three_units\<lparr>effects := effects three_units @
         [AwaitRun 1 7 [] [], AwaitRun 2 7 [] [], AwaitRun 3 7 [] []]\<rparr>)"
    unfolding m l by (simp add: prod_eq_iff)
  from d m r a b show ?thesis by blast
qed

text \<open>
  Running a name that is not registered raises nothing and is not free of effect: the call
  returns normally after writing an error record.
\<close>

theorem run_module_miss_counterexample:
  "run_module demo_env ''c'' [] [] two_units =
     (Inr (), two_units\<lparr>effects := effects two_units @ [Log ERROR ''Module c not found!'']\<rparr>)"
  by (simp add: two_units_eq run_module_def logging_error_def)

text \<open>
  C3 (as amended). For every name, \<open>run_module\<close> on a name that is not registered returns
  normally, awaits no entry point and leaves the registry as it was; its one effect is the
  error record \<open>Module <name> not found!\<close>. On a name registered by
  \<open>register_module name d\<close> (the name being free before), and on any name that the registry
  binds to \<open>d\<close>, it awaits exactly the entry point of \<open>d\<close>, once, with the shared context and
  the forwarded arguments, and the outcome of that entry point is the outcome of the call.
\<close>

theorem run_module_by_name:
  "(\<not> dict_has name (modules s) \<longrightarrow>
      run_module e name args kwargs s =
        (Inr (), s\<lparr>effects := effects s @ [Log ERROR (''Module '' @ name @ '' not found!'')]\<rparr>)) \<and>
   (\<not> dict_has name (modules s) \<longrightarrow>
      run_module e name args kwargs (snd (register_module name d s)) =
        (await_run e d (shared_libs s) args kwargs,
         (snd (register_module name d s))\<lparr>effects := effects (snd (register_module name d s)) @
            [AwaitRun d (shared_libs s) args kwargs]\<rparr>)) \<and>
   (map_of (modules s) name = Some d \<longrightarrow>
      run_module e name args kwargs s =
        (await_run e d (shared_libs s) args kwargs,
         s\<lparr>effects := effects s @ [AwaitRun d (shared_libs s) args kwargs]\<rparr>))"
proof (intro conjI impI)
  assume absent: "\<not> dict_has name (modules s)"
  then show "run_module e name args kwargs s =
        (Inr (), s\<lparr>effects := effects s @ [Log ERROR (''Module '' @ name @ '' not found!'')]\<rparr>)"
    by (rule run_module_miss)
  let ?s = "snd (register_module name d s)"
  from absent have "map_of (modules s) name = None"
    by (simp add: dict_has_def map_of_eq_None_iff)
  with absent have "map_of (modules ?s) name = Some d" and "shared_libs ?s = shared_libs s"
    by (simp_all add: register_module_absent map_add_def)
  with run_module_hit [of ?s name d e args kwargs]
  show "run_module e name args kwargs ?s =
        (await_run e d (shared_libs s) args kwargs,
         ?s\<lparr>effects := effects ?s @ [AwaitRun d (shared_libs s) args kwargs]\<rparr>)"
    by simp
next
  assume "map_of (modules s) name = Some d"
  then show "run_module e name args kwargs s =
        (await_run e d (shared_libs s) args kwargs,
         s\<lparr>effects := effects s @ [AwaitRun d (shared_libs s) args kwargs]\<rparr>)"
    by (rule run_module_hit)
qed

theorem run_module_by_name_witness:
  "\<not> dict_has ''c'' (modules two_units) \<and>
   run_module demo_env ''c'' [5] [] (snd (register_module ''c'' 3 two_units)) =
     (Inr (), (snd (register_module ''c'' 3 two_units))\<lparr>effects :=
        effects (snd (register_module ''c'' 3 two_units)) @ [AwaitRun 3 7 [5] []]\<rparr>) \<and>
   map_of (modules two_units) ''b'' = Some 2 \<and>
   run_module demo_env ''b'' [5] [] two_units =
     (Inl (PyException ''boom''), two_units\<lparr>effects := effects two_units @ [AwaitRun 2 7 [5] []]\<rparr>)"
  using run_module_by_name [of "''c''" two_units demo_env "[5]" "[]" 3]
    run_module_by_name [of "''b''" two_units demo_env "[5]" "[]" 2]
  by (simp add: two_units_eq dict_has_def demo_env_def)

section \<open>Properties of the server and the client\<close>

lemma run_server_snoc:
  "run_server (Suc n) others i s =
     (case run_server n others i s of
        Running s' \<Rightarrow> Running (server_iteration (s'\<lparr>queue := others (i + n) (queue s')\<rparr>))
      | Returned s' \<Rightarrow> Returned s')"
proof (induction n arbitrary: i s)
  case 0
  then show ?case by simp
next
  case (Suc n)
  let ?s = "server_iteration (s\<lparr>queue := others i (queue s)\<rparr>)"
  have "run_server (Suc (Suc n)) others i s = run_server (Suc n) others (Suc i) ?s"
    by simp
  also have "\<dots> =
     (case run_server n others (Suc i) ?s of
        Running s' \<Rightarrow> Running (server_iteration (s'\<lparr>queue := others (Suc i + n) (queue s')\<rparr>))
      | Returned s' \<Rightarrow> Returned s')"
    by (rule Suc.IH)
  finally show ?case by (simp split: loop.splits)
qed

lemma run_server_running: "\<exists>s'. run_server n others i s = Running s'"
  by (induction n arbitrary: i s) simp_all

text \<open>
  C6. An iteration of the server loop on an empty queue changes nothing, queue or log, and
  is no error; on a queue with head \<open>data\<close> it takes exactly that entry off the head and
  puts exactly one entry, \<open>Server acknowledged: <data>\<close>, at the tail of the same queue,
  logging the receipt. Every step of the loop is such an iteration: the state after
  \<open>n + 1\<close> iterations is the iteration applied to the state after \<open>n\<close>, as the other thread
  left it. After any number of iterations the loop is still running: it has no terminal
  state.
\<close>

theorem server_iteration_step:
  "(queue s = [] \<longrightarrow> server_iteration s = s) \<and>
   (\<forall>data rest. queue s = data # rest \<longrightarrow>
      server_iteration s =
        s\<lparr>queue := rest @ [''Server acknowledged: '' @ data],
          records := records s @ [(INFO, ''Server received: '' @ data)]\<rparr>) \<and>
   run_server 0 others i s = Running s \<and>
   run_server (Suc n) others i s =
     (case run_server n others i s of
        Running s' \<Rightarrow> Running (server_iteration (s'\<lparr>queue := others (i + n) (queue s')\<rparr>))
      | Returned s' \<Rightarrow> Returned s') \<and>
   (\<exists>s'. run_server n others i s = Running s')"
  using run_server_snoc [of n others i s] run_server_running [of n others i s]
  by (simp add: server_iteration_def acknowledgment_def)

theorem server_iteration_step_witness:
  "queue \<lparr>queue = [], records = []\<rparr> = [] \<and>
   server_iteration \<lparr>queue = [], records = []\<rparr> = \<lparr>queue = [], records = []\<rparr> \<and>
   queue \<lparr>queue = [''m0''], records = []\<rparr> = ''m0'' # [] \<and>
   server_iteration \<lparr>queue = [''m0''], records = []\<rparr> =
     \<lparr>queue = [''Server acknowledged: m0''], records = [(INFO, ''Server received: m0'')]\<rparr> \<and>
   run_server 1 (\<lambda>i q. q) 0 \<lparr>queue = [''m0''], records = []\<rparr> =
     Running \<lparr>queue = [''Server acknowledged: m0''], records = [(INFO, ''Server received: m0'')]\<rparr> \<and>
   run_server 1 (\<lambda>i q. q) 0 \<lparr>queue = [], records = []\<rparr> = Running \<lparr>queue = [], records = []\<rparr>"
  using server_iteration_step [of "\<lparr>queue = [], records = []\<rparr>" "\<lambda>i q. q" 0 0]
    server_iteration_step [of "\<lparr>queue = [''m0''], records = []\<rparr>" "\<lambda>i q. q" 0 0]
  by simp

text \<open>
  C10. The server treats every entry alike: whatever entry is at the head, it puts the
  acknowledgment derived from it at the tail. An entry that is itself an acknowledgment is
  acknowledged again, and a message left alone on the queue for two iterations comes back
  as the acknowledgment of its acknowledgment.
\<close>

theorem server_reacknowledges:
  "server_iteration (s\<lparr>queue := entry # rest\<rparr>) =
     s\<lparr>queue := rest @ [''Server acknowledged: '' @ entry],
       records := records s @ [(INFO, ''Server received: '' @ entry)]\<rparr> \<and>
   queue (server_iteration (s\<lparr>queue := acknowledgment m # rest\<rparr>)) =
     rest @ [acknowledgment (acknowledgment m)] \<and>
   queue (server_iteration (server_iteration (s\<lparr>queue := [m]\<rparr>))) =
     [''Server acknowledged: Server acknowledged: '' @ m]"
  by (simp add: server_iteration_def acknowledgment_def)

lemma client_iteration_cases:
  "client_iteration others s i =
     (case others i (queue s @ [client_message i]) of
        [] \<Rightarrow>
          s\<lparr>queue := [],
            records := records s @ [(INFO, ''Client sending: '' @ client_message i)]\<rparr>
      | response # rest \<Rightarrow>
          s\<lparr>queue := rest,
            records := records s @ [(INFO, ''Client sending: '' @ client_message i),
                                    (INFO, ''Client received: '' @ response)]\<rparr>)"
  by (simp add: client_iteration_def Let_def split: list.splits)

lemma client_iteration_sending:
  "filter is_sending (records (client_iteration others s i)) =
     filter is_sending (records s) @ [(INFO, ''Client sending: '' @ client_message i)]"
  by (simp add: client_iteration_def Let_def is_sending_def split: list.splits)

lemma client_iteration_received:
  "length (filter is_received (records (client_iteration others s i))) \<le>
     Suc (length (filter is_received (records s)))"
  by (simp add: client_iteration_def Let_def is_received_def split: list.splits)

lemma client_loop_sending:
  "filter is_sending (records (foldl (client_iteration others) s js)) =
     filter is_sending (records s) @ map (\<lambda>i. (INFO, ''Client sending: '' @ client_message i)) js"
  by (induction js arbitrary: s) (simp_all add: client_iteration_sending)

lemma client_loop_received:
  "length (filter is_received (records (foldl (client_iteration others) s js))) \<le>
     length (filter is_received (records s)) + length js"
proof (induction js arbitrary: s)
  case Nil
  then show ?case by simp
next
  case (Cons j js)
  from Cons.IH [of "client_iteration others s j"] client_iteration_received [of others s j]
  show ?case by simp
qed

lemma client_iteration_alone:
  "queue (client_iteration (\<lambda>i q. q) s j) = tl (queue s @ [client_message j])"
  by (simp add: client_iteration_cases split: list.splits)

lemma client_loop_alone:
  "queue (foldl (client_iteration (\<lambda>i q. q)) s js) =
     drop (length js) (queue s @ map client_message js)"
proof (induction js arbitrary: s)
  case Nil
  then show ?case by simp
next
  case (Cons j js)
  have "tl (queue s @ [client_message j]) @ map client_message js =
        tl (queue s @ client_message j # map client_message js)"
    by (cases "queue s") simp_all
  with Cons.IH [of "client_iteration (\<lambda>i q. q) s j"]
  have "queue (foldl (client_iteration (\<lambda>i q. q)) (client_iteration (\<lambda>i q. q) s j) js) =
        drop (length js) (tl (queue s @ client_message j # map client_message js))"
    by (simp only: client_iteration_alone)
  also have "\<dots> = drop (Suc (length js)) (queue s @ client_message j # map client_message js)"
    by (simp only: drop_Suc)
  finally show ?case
    by (simp only: foldl_Cons list.map list.size length_map) simp
qed

lemma upt_five: "[0..<5] = [0, 1, 2, 3, 4::nat]"
  by (simp add: upt_rec)

text \<open>
  C7. The client loop is exactly the five iterations \<open>i = 0, ..., 4\<close>, one after the
  other, and then returns. One iteration logs and puts exactly one message at the tail of
  the queue, lets the wait pass (during which the other thread acts on the queue), and
  then takes the head of the queue and logs it if there is one, and takes nothing if the
  queue is empty. Over the whole run the client announces and puts exactly the five
  messages \<open>Client message i\<close>, in order, and takes at most five entries; left alone with
  the queue, it has put five messages at the tail and taken five entries off the head.
\<close>

theorem run_client_five_iterations:
  "run_client others s =
     client_iteration others
       (client_iteration others
         (client_iteration others
           (client_iteration others
             (client_iteration others s 0) 1) 2) 3) 4 \<and>
   client_iteration others s i =
     (case others i (queue s @ [client_message i]) of
        [] \<Rightarrow>
          s\<lparr>queue := [],
            records := records s @ [(INFO, ''Client sending: '' @ client_message i)]\<rparr>
      | response # rest \<Rightarrow>
          s\<lparr>queue := rest,
            records := records s @ [(INFO, ''Client sending: '' @ client_message i),
                                    (INFO, ''Client received: '' @ response)]\<rparr>) \<and>
   filter is_sending (records (run_client others s)) =
     filter is_sending (records s) @
       map (\<lambda>i. (INFO, ''Client sending: '' @ client_message i)) [0, 1, 2, 3, 4] \<and>
   length (filter is_received (records (run_client others s))) \<le>
     length (filter is_received (records s)) + 5 \<and>
   queue (run_client (\<lambda>i q. q) s) =
     drop 5 (queue s @ map client_message [0, 1, 2, 3, 4])"
proof (intro conjI)
  show "run_client others s =
     client_iteration others
       (client_iteration others
         (client_iteration others
           (client_iteration others
             (client_iteration others s 0) 1) 2) 3) 4"
    unfolding run_client_def upt_five by simp
  show "client_iteration others s i =
     (case others i (queue s @ [client_message i]) of
        [] \<Rightarrow>
          s\<lparr>queue := [],
            records := records s @ [(INFO, ''Client sending: '' @ client_message i)]\<rparr>
      | response # rest \<Rightarrow>
          s\<lparr>queue := rest,
            records := records s @ [(INFO, ''Client sending: '' @ client_message i),
                                    (INFO, ''Client received: '' @ response)]\<rparr>)"
    by (rule client_iteration_cases)
  show "filter is_sending (records (run_client others s)) =
     filter is_sending (records s) @
       map (\<lambda>i. (INFO, ''Client sending: '' @ client_message i)) [0, 1, 2, 3, 4]"
    unfolding run_client_def client_loop_sending upt_five ..
  show "length (filter is_received (records (run_client others s))) \<le>
     length (filter is_received (records s)) + 5"
    using client_loop_received [of others s "[0..<5]"] unfolding run_client_def by simp
  show "queue (run_client (\<lambda>i q. q) s) =
     drop 5 (queue s @ map client_message [0, 1, 2, 3, 4])"
  proof -
    have l: "length [0, 1, 2, 3, 4::nat] = 5" by simp
    show ?thesis
      unfolding run_client_def upt_five client_loop_alone l ..
  qed
qed

section \<open>Properties of discovery\<close>

lemma register_module_returns: "fst (register_module n m s) = Inr ()"
  by (simp add: register_module_def)

lemma load_all_append:
  "load_all e (xs @ ys) s =
     (case load_all e xs s of (Inl x, s') \<Rightarrow> (Inl x, s') | (Inr u, s') \<Rightarrow> load_all e ys s')"
  by (induction xs arbitrary: s) (auto split: prod.splits sum.splits)

lemma discover_files_load_all:
  "discover_files e t files s = load_all e (map (module_name_of t) (filter is_candidate files)) s"
  by (induction files arbitrary: s) (auto split: prod.splits sum.splits)

lemma candidates_Cons: "candidates e (t # ts) = candidates e [t] @ candidates e ts"
  by (simp add: candidates_def)

lemma discover_type_load_all:
  assumes "path_exists e (''./'' @ t) \<longrightarrow> (\<exists>files. listdir e (''./'' @ t) = Inr files)"
  shows "discover_type e t s = load_all e (candidates e [t]) s"
  using assms
  by (auto simp: discover_type_def candidates_def discover_files_load_all)

lemma discover_types_load_all:
  assumes "\<forall>t\<in>set ts. path_exists e (''./'' @ t) \<longrightarrow> (\<exists>files. listdir e (''./'' @ t) = Inr files)"
  shows "discover_types e ts s = load_all e (candidates e ts) s"
  using assms
proof (induction ts arbitrary: s)
  case Nil
  then show ?case by (simp add: candidates_def)
next
  case (Cons t ts)
  from Cons.prems have "discover_type e t s = load_all e (candidates e [t]) s"
    by (intro discover_type_load_all) simp
  moreover from Cons.prems have "\<And>s'. discover_types e ts s' = load_all e (candidates e ts) s'"
    by (intro Cons.IH) simp
  ultimately show ?case
    by (simp add: candidates_Cons [of e t ts] load_all_append split: prod.splits sum.splits)
qed

lemma load_candidate_fresh:
  assumes "\<not> dict_has n (modules s)"
    and "\<forall>x. import_module e n = Inl x \<longrightarrow> (\<exists>msg. x = PyException msg)"
  shows "load_candidate e n s =
           (Inr (), s\<lparr>modules := modules s @ (case import_module e n of Inl x \<Rightarrow> [] | Inr m \<Rightarrow> [(n, m)]),
                      effects := effects s @ [candidate_record e n]\<rparr>)"
proof (cases "import_module e n")
  case (Inl x)
  with assms(2) obtain msg where "x = PyException msg" by blast
  with Inl show ?thesis
    by (simp add: load_candidate_def except_Exception_def candidate_record_def logging_error_def)
next
  case (Inr m)
  with assms(1) show ?thesis
    by (simp add: load_candidate_def except_Exception_def candidate_record_def
        register_module_absent)
qed


lemma load_all_fresh:
  assumes "distinct ns" and "\<forall>n\<in>set ns. \<not> dict_has n (modules s)"
    and "\<forall>n x. import_module e n = Inl x \<longrightarrow> (\<exists>msg. x = PyException msg)"
  shows "load_all e ns s =
           (Inr (), s\<lparr>modules := modules s @ loaded e ns,
                      effects := effects s @ map (candidate_record e) ns\<rparr>)"
  using assms(1,2)
proof (induction ns arbitrary: s)
  case Nil
  then show ?case by (simp add: loaded_def)
next
  case (Cons n ns)
  let ?s = "s\<lparr>modules := modules s @ (case import_module e n of Inl x \<Rightarrow> [] | Inr m \<Rightarrow> [(n, m)]),
              effects := effects s @ [candidate_record e n]\<rparr>"
  from Cons.prems have fresh: "\<not> dict_has n (modules s)" by simp
  from assms(3) have "\<forall>x. import_module e n = Inl x \<longrightarrow> (\<exists>msg. x = PyException msg)"
    by blast
  note step = load_candidate_fresh [OF fresh this]
  from Cons.prems have "distinct ns" by simp
  moreover have "\<forall>k\<in>set ns. \<not> dict_has k (modules ?s)"
    using Cons.prems by (auto simp: dict_has_def split: sum.splits)
  ultimately have "load_all e ns ?s =
      (Inr (), ?s\<lparr>modules := modules ?s @ loaded e ns,
                  effects := effects ?s @ map (candidate_record e) ns\<rparr>)"
    by (rule Cons.IH)
  moreover have "loaded e (n # ns) =
      (case import_module e n of Inl x \<Rightarrow> [] | Inr m \<Rightarrow> [(n, m)]) @ loaded e ns"
    by (simp add: loaded_def)
  ultimately show ?case
    by (simp add: step)
qed

lemma endswith_py: "endswith f ''.py'' \<Longrightarrow> f = strip3 f @ ''.py''"
proof -
  assume "endswith f ''.py''"
  then have "drop (length f - 3) f = ''.py''"
    by (simp add: endswith_def numeral_3_eq_3)
  then have "take (length f - 3) f @ ''.py'' = f"
    using append_take_drop_id [of "length f - 3" f] by simp
  then show ?thesis
    by (simp add: strip3_def)
qed

lemma strip3_inj: "is_candidate f \<Longrightarrow> is_candidate f' \<Longrightarrow> strip3 f = strip3 f' \<Longrightarrow> f = f'"
  using endswith_py [of f] endswith_py [of f'] by (simp add: is_candidate_def)

lemma dot_split:
  "CHR ''.'' \<notin> set a \<Longrightarrow> CHR ''.'' \<notin> set b \<Longrightarrow> a @ ''.'' @ x = b @ ''.'' @ y \<Longrightarrow> a = b"
proof (induction a arbitrary: b)
  case Nil
  then show ?case by (cases b) auto
next
  case (Cons c a)
  then show ?case by (cases b) auto
qed

lemma distinct_type_names:
  assumes "distinct files"
  shows "distinct (map (module_name_of t) (filter is_candidate (sort files)))"
proof -
  have "inj_on (module_name_of t) (set (filter is_candidate (sort files)))"
    by (auto simp: inj_on_def module_name_of_def dest: strip3_inj)
  with assms show ?thesis
    by (simp add: distinct_map)
qed

lemma candidates_prefix:
  "n \<in> set (candidates e ts) \<Longrightarrow> \<exists>t\<in>set ts. \<exists>x. n = t @ ''.'' @ x"
  by (auto simp: candidates_def module_name_of_def split: sum.splits if_splits)

lemma distinct_candidates:
  assumes "\<forall>t files. path_exists e (''./'' @ t) \<and> listdir e (''./'' @ t) = Inr files \<longrightarrow>
             distinct files"
    and "distinct ts" and "\<forall>t\<in>set ts. CHR ''.'' \<notin> set t"
  shows "distinct (candidates e ts)"
  using assms(2,3)
proof (induction ts)
  case Nil
  then show ?case by (simp add: candidates_def)
next
  case (Cons t ts)
  have one: "distinct (candidates e [t])"
  proof (cases "path_exists e (''./'' @ t)")
    case False
    then show ?thesis by (simp add: candidates_def)
  next
    case True
    show ?thesis
    proof (cases "listdir e (''./'' @ t)")
      case (Inl x)
      with True show ?thesis by (simp add: candidates_def)
    next
      case (Inr files)
      with True assms(1) have "distinct files" by blast
      with True Inr show ?thesis by (simp add: candidates_def distinct_type_names)
    qed
  qed
  have rest: "distinct (candidates e ts)"
    using Cons by simp
  have "set (candidates e [t]) \<inter> set (candidates e ts) = {}"
  proof (rule ccontr)
    assume "set (candidates e [t]) \<inter> set (candidates e ts) \<noteq> {}"
    then obtain n where "n \<in> set (candidates e [t])" and "n \<in> set (candidates e ts)"
      by auto
    from candidates_prefix [OF this(1)] obtain x where nx: "n = t @ ''.'' @ x"
      by auto
    from candidates_prefix [OF \<open>n \<in> set (candidates e ts)\<close>]
    obtain t' y where "t' \<in> set ts" and ny: "n = t' @ ''.'' @ y"
      by auto
    from nx ny have "t @ ''.'' @ x = t' @ ''.'' @ y" by simp
    with Cons.prems \<open>t' \<in> set ts\<close> have "t = t'"
      by (intro dot_split [of t t' x y]) auto
    with \<open>t' \<in> set ts\<close> Cons.prems show False by simp
  qed
  with one rest show ?case
    by (simp add: candidates_Cons [of e t ts])
qed



lemma default_types_ok:
  "distinct [''models'', ''controllers'', ''services'', ''utils'', ''security''] \<and>
   (\<forall>t\<in>set [''models'', ''controllers'', ''services'', ''utils'', ''security'']. CHR ''.'' \<notin> set t)"
  by simp

lemma fresh_types:
  "module_types (Framework_init libs es) =
     [''models'', ''controllers'', ''services'', ''utils'', ''security'']"
  by (simp add: Framework_init_def logging_info_def)

lemma discover_fresh:
  assumes "\<forall>t. path_exists e (''./'' @ t) \<longrightarrow>
             (\<exists>files. listdir e (''./'' @ t) = Inr files \<and> distinct files)"
    and "\<forall>n x. import_module e n = Inl x \<longrightarrow> (\<exists>msg. x = PyException msg)"
  shows "auto_discover_and_register e (Framework_init libs es) =
           (Inr (), (Framework_init libs es)
             \<lparr>modules := loaded e (candidates e (module_types (Framework_init libs es))),
              effects := effects (Framework_init libs es) @
                map (candidate_record e) (candidates e (module_types (Framework_init libs es)))\<rparr>)"
proof -
  let ?s = "Framework_init libs es"
  let ?ts = "[''models'', ''controllers'', ''services'', ''utils'', ''security'']"
  have empty: "modules ?s = []"
    by (simp add: Framework_init_def logging_info_def)
  have "\<forall>t files. path_exists e (''./'' @ t) \<and> listdir e (''./'' @ t) = Inr files \<longrightarrow> distinct files"
    using assms(1) by fastforce
  from distinct_candidates [OF this] default_types_ok have d: "distinct (candidates e ?ts)"
    by blast
  have f: "\<forall>n\<in>set (candidates e ?ts). \<not> dict_has n (modules ?s)"
    by (simp only: empty dict_has_def) simp
  have l: "\<forall>t\<in>set ?ts. path_exists e (''./'' @ t) \<longrightarrow> (\<exists>files. listdir e (''./'' @ t) = Inr files)"
    using assms(1) by blast
  have "auto_discover_and_register e ?s = load_all e (candidates e ?ts) ?s"
    unfolding auto_discover_and_register_def fresh_types
    by (rule discover_types_load_all [OF l])
  also have "\<dots> =
      (Inr (), ?s\<lparr>modules := modules ?s @ loaded e (candidates e ?ts),
                  effects := effects ?s @ map (candidate_record e) (candidates e ?ts)\<rparr>)"
    by (rule load_all_fresh [OF d f assms(2)])
  finally show ?thesis
    by (simp only: fresh_types empty append_Nil)
qed


lemma demo_sorted:
  "sort [''c_orchestrate.py'', ''notes.txt'', ''a_orchestrate.py'', ''b_orchestrate.py''] =
     [''a_orchestrate.py'', ''b_orchestrate.py'', ''c_orchestrate.py'', ''notes.txt'']"
  "sort [''u_orchestrate.py''] = [''u_orchestrate.py'']"
  by simp_all

lemma demo_files:
  "is_candidate ''a_orchestrate.py''" "is_candidate ''b_orchestrate.py''"
  "is_candidate ''c_orchestrate.py''" "is_candidate ''u_orchestrate.py''"
  "\<not> is_candidate ''notes.txt''"
  by (simp_all add: is_candidate_def endswith_def)

lemma demo_names:
  "module_name_of ''models'' ''a_orchestrate.py'' = ''models.a_orchestrate''"
  "module_name_of ''models'' ''b_orchestrate.py'' = ''models.b_orchestrate''"
  "module_name_of ''models'' ''c_orchestrate.py'' = ''models.c_orchestrate''"
  "module_name_of ''utils'' ''u_orchestrate.py'' = ''utils.u_orchestrate''"
  by (simp_all add: module_name_of_def strip3_def)

lemma demo_tree:
  "path_exists demo_env (''./'' @ t) = (t = ''models'' \<or> t = ''utils'')"
  "listdir demo_env ''./models'' =
     Inr [''c_orchestrate.py'', ''notes.txt'', ''a_orchestrate.py'', ''b_orchestrate.py'']"
  "listdir demo_env ''./utils'' = Inr [''u_orchestrate.py'']"
  by (simp_all add: demo_env_def)

lemma demo_candidates:
  "candidates demo_env [''models'', ''controllers'', ''services'', ''utils'', ''security''] =
     [''models.a_orchestrate'', ''models.b_orchestrate'', ''models.c_orchestrate'',
      ''utils.u_orchestrate'']"
  unfolding candidates_def
  using demo_tree(1) [of "''models''"] demo_tree(1) [of "''controllers''"]
    demo_tree(1) [of "''services''"] demo_tree(1) [of "''utils''"] demo_tree(1) [of "''security''"]
  by (simp add: demo_tree(2,3) demo_sorted demo_files demo_names)


lemma demo_imports:
  "import_module demo_env ''models.a_orchestrate'' = Inr 1"
  "import_module demo_env ''models.b_orchestrate'' = Inl (PyException ''No module'')"
  "import_module demo_env ''models.c_orchestrate'' = Inr 3"
  "import_module demo_env ''utils.u_orchestrate'' = Inr 4"
  by (simp_all add: demo_env_def)

lemma demo_lists:
  "\<forall>t. path_exists demo_env (''./'' @ t) \<longrightarrow>
        (\<exists>files. listdir demo_env (''./'' @ t) = Inr files \<and> distinct files)"
  by (simp add: demo_tree(1)) (auto simp: demo_env_def)

lemma demo_exceptions:
  "\<forall>n x. import_module demo_env n = Inl x \<longrightarrow> (\<exists>msg. x = PyException msg)"
  by (simp add: demo_env_def)

lemma demo_discovered:
  "auto_discover_and_register demo_env (Framework_init 7 es) =
     (Inr (), (Framework_init 7 es)
        \<lparr>modules := [(''models.a_orchestrate'', 1), (''models.c_orchestrate'', 3),
                     (''utils.u_orchestrate'', 4)],
         effects := effects (Framework_init 7 es) @
           [Log INFO ''Module models.a_orchestrate registered successfully.'',
            Log ERROR ''Failed to load models.b_orchestrate: No module'',
            Log INFO ''Module models.c_orchestrate registered successfully.'',
            Log INFO ''Module utils.u_orchestrate registered successfully.'']\<rparr>)"
  unfolding discover_fresh [OF demo_lists demo_exceptions] fresh_types demo_candidates
  by (simp add: loaded_def candidate_record_def demo_imports)

lemma exit_discovered:
  "auto_discover_and_register exit_env (Framework_init 7 es) =
     (Inl (SystemExit 1), Framework_init 7 es)"
proof -
  have tree: "path_exists exit_env ''./models''"
    "listdir exit_env ''./models'' =
       Inr [''c_orchestrate.py'', ''notes.txt'', ''a_orchestrate.py'', ''b_orchestrate.py'']"
    "import_module exit_env ''models.a_orchestrate'' = Inl (SystemExit 1)"
    by (simp_all add: exit_env_def demo_env_def)
  have "load_candidate exit_env ''models.a_orchestrate'' (Framework_init 7 es) =
      (Inl (SystemExit 1), Framework_init 7 es)"
    by (simp add: load_candidate_def except_Exception_def tree)
  then have "discover_type exit_env ''models'' (Framework_init 7 es) =
      (Inl (SystemExit 1), Framework_init 7 es)"
    using tree(1,2) by (simp add: discover_type_def demo_sorted demo_files demo_names)
  then show ?thesis
    unfolding auto_discover_and_register_def fresh_types by simp
qed




lemma sort_mset_eq: "mset xs = mset ys \<Longrightarrow> sort xs = sort (ys :: string list)"
  using properties_for_sort [of "sort xs" ys] by simp

lemma load_all_import_cong:
  "import_module e' = import_module e \<Longrightarrow> load_all e' ns s = load_all e ns s"
  by (induction ns arbitrary: s) (simp_all add: load_candidate_def split: prod.splits sum.splits)

lemma discover_type_cong:
  assumes "path_exists e' = path_exists e"
    and "\<forall>p. map_sum id mset (listdir e' p) = map_sum id mset (listdir e p)"
    and "import_module e' = import_module e"
  shows "discover_type e' t s = discover_type e t s"
proof (cases "listdir e (''./'' @ t)")
  case (Inl x)
  with assms(2) [rule_format, of "''./'' @ t"] have "listdir e' (''./'' @ t) = Inl x"
    by (cases "listdir e' (''./'' @ t)") simp_all
  with Inl assms(1) show ?thesis
    by (simp add: discover_type_def)
next
  case (Inr files)
  with assms(2) [rule_format, of "''./'' @ t"]
  obtain files' where l: "listdir e' (''./'' @ t) = Inr files'" and "mset files' = mset files"
    by (cases "listdir e' (''./'' @ t)") simp_all
  then have "sort files' = sort files"
    by (intro sort_mset_eq)
  with Inr l assms(1) load_all_import_cong [OF assms(3)] show ?thesis
    by (simp add: discover_type_def discover_files_load_all)
qed

lemma discover_types_cong:
  assumes "path_exists e' = path_exists e"
    and "\<forall>p. map_sum id mset (listdir e' p) = map_sum id mset (listdir e p)"
    and "import_module e' = import_module e"
  shows "discover_types e' ts s = discover_types e ts s"
  by (induction ts arbitrary: s)
    (simp_all add: discover_type_cong [OF assms] split: prod.splits sum.splits)



lemma discover_types_append:
  "discover_types e (xs @ ys) s =
     (case discover_types e xs s of
        (Inl x, s') \<Rightarrow> (Inl x, s')
      | (Inr u, s') \<Rightarrow> discover_types e ys s')"
  by (induction xs arbitrary: s) (auto split: prod.splits sum.splits)

text \<open>
  C9. A category whose directory does not exist leaves the state as it is: no unit is
  registered for it, nothing is logged and nothing is raised. Discovery over a category
  list that contains it is discovery over the list without it, so the categories before
  and after it are processed as usual.
\<close>

theorem missing_directory_skipped:
  assumes "\<not> path_exists e (''./'' @ t)"
  shows "discover_type e t s = (Inr (), s) \<and>
         discover_types e (before @ t # after) s = discover_types e (before @ after) s \<and>
         (module_types s = before @ t # after \<longrightarrow>
            auto_discover_and_register e s = discover_types e (before @ after) s)"
proof -
  from assms have skip: "discover_type e t s' = (Inr (), s')" for s'
    by (simp add: discover_type_def)
  then have "discover_types e (before @ t # after) s = discover_types e (before @ after) s"
    by (simp add: discover_types_append split: prod.splits sum.splits)
  with skip show ?thesis
    by (simp add: auto_discover_and_register_def)
qed



lemma two_units_types:
  "module_types two_units = [''models''] @ ''controllers'' # [''services'', ''utils'', ''security'']"
  by (simp add: two_units_eq)

theorem missing_directory_skipped_witness:
  "\<not> path_exists demo_env (''./'' @ ''controllers'') \<and>
   discover_type demo_env ''controllers'' two_units = (Inr (), two_units) \<and>
   auto_discover_and_register demo_env two_units =
     discover_types demo_env [''models'', ''services'', ''utils'', ''security''] two_units"
proof -
  have h: "\<not> path_exists demo_env (''./'' @ ''controllers'')"
    by (simp add: demo_env_def)
  from missing_directory_skipped [OF h, of two_units "[''models'']" "[''services'', ''utils'', ''security'']"]
    two_units_types h
  show ?thesis by simp
qed

section \<open>Properties of the command line\<close>

lemma only_logs_refl: "only_logs s s"
  by (simp add: only_logs_def)

lemma only_logs_trans: "only_logs s s' \<Longrightarrow> only_logs s' s'' \<Longrightarrow> only_logs s s''"
proof -
  assume a: "only_logs s s'" and b: "only_logs s' s''"
  from a obtain l1 where l1: "effects s' = effects s @ l1" "list_all is_log l1"
    by (auto simp: only_logs_def)
  from b obtain l2 where l2: "effects s'' = effects s' @ l2" "list_all is_log l2"
    by (auto simp: only_logs_def)
  from l1 l2 have "effects s'' = effects s @ (l1 @ l2) \<and> list_all is_log (l1 @ l2)"
    by simp
  then have "\<exists>logs. effects s'' = effects s @ logs \<and> list_all is_log logs"
    by blast
  with a b show ?thesis
    by (simp add: only_logs_def)
qed

lemma load_candidate_only_logs: "only_logs s (snd (load_candidate e n s))"
proof (cases "import_module e n")
  case (Inl x)
  then show ?thesis
    by (cases x)
      (simp_all add: load_candidate_def except_Exception_def logging_error_def only_logs_def)
next
  case (Inr m)
  have "only_logs s (snd (register_module n m s))"
    by (auto simp: only_logs_def register_module_def logging_error_def logging_info_def
        dict_set_absent dict_has_def)
  moreover have "except_Exception n (register_module n m s) = register_module n m s"
    by (simp add: except_Exception_def register_module_def)
  ultimately show ?thesis
    using Inr by (simp add: load_candidate_def)
qed

lemma load_all_only_logs: "only_logs s (snd (load_all e ns s))"
proof (induction ns arbitrary: s)
  case Nil
  then show ?case by (simp add: only_logs_refl)
next
  case (Cons n ns)
  obtain r s' where step: "load_candidate e n s = (r, s')"
    by (cases "load_candidate e n s")
  with load_candidate_only_logs [of s e n] have one: "only_logs s s'"
    by simp
  show ?case
  proof (cases r)
    case (Inl x)
    with step one show ?thesis by simp
  next
    case (Inr u)
    with step have "snd (load_all e (n # ns) s) = snd (load_all e ns s')"
      by simp
    with only_logs_trans [OF one Cons.IH [of s']] show ?thesis
      by simp
  qed
qed

lemma discover_type_only_logs: "only_logs s (snd (discover_type e t s))"
  by (simp add: discover_type_def discover_files_load_all load_all_only_logs only_logs_refl
      split: sum.splits)

lemma discover_types_only_logs: "only_logs s (snd (discover_types e ts s))"
proof (induction ts arbitrary: s)
  case Nil
  then show ?case by (simp add: only_logs_refl)
next
  case (Cons t ts)
  obtain r s' where step: "discover_type e t s = (r, s')"
    by (cases "discover_type e t s")
  with discover_type_only_logs [of s e t] have one: "only_logs s s'"
    by simp
  show ?case
  proof (cases r)
    case (Inl x)
    with step one show ?thesis by simp
  next
    case (Inr u)
    with step have "snd (discover_types e (t # ts) s) = snd (discover_types e ts s')"
      by simp
    with only_logs_trans [OF one Cons.IH [of s']] show ?thesis
      by simp
  qed
qed

lemma generate_folder_shape:
  "\<exists>gen. generate_folder e es w = es @ gen \<and> list_all is_generation gen"
  by (cases w) (auto simp: generate_folder_def Let_def split: option.splits)

lemma generate_walk_shape:
  "\<exists>gen. foldl (generate_folder e) es ws = es @ gen \<and> list_all is_generation gen"
proof (induction ws arbitrary: es)
  case Nil
  then show ?case by simp
next
  case (Cons w ws)
  from generate_folder_shape [of e es w] obtain g1
    where g1: "generate_folder e es w = es @ g1" "list_all is_generation g1" by blast
  from Cons.IH [of "es @ g1"] obtain g2
    where g2: "foldl (generate_folder e) (es @ g1) ws = (es @ g1) @ g2" "list_all is_generation g2"
    by blast
  from g1 g2 have "foldl (generate_folder e) es (w # ws) = es @ (g1 @ g2) \<and>
      list_all is_generation (g1 @ g2)"
    by simp
  then show ?case by blast
qed

lemma generate_orchestrators_shape:
  "\<exists>gen. generate_orchestrators e base es =
           es @ [Log INFO (''Generating orchestrators for: '' @ base)] @ gen \<and>
         list_all is_generation gen"
  using generate_walk_shape [of e "es @ [Log INFO (''Generating orchestrators for: '' @ base)]"
      "os_walk e base"]
  by (simp add: generate_orchestrators_def)

lemma titanoboa_exit:
  assumes "sqlite3_connect e ''app.db'' = Some msg"
  shows "titanoboa e project es =
    (Inl (SystemExit 1),
     generate_orchestrators e ''./'' (es @ [Log INFO (''Initializing project: '' @ project)]) @
       [Log INFO ''Setting up logger...'',
        Log ERROR (''Error connecting to the database: '' @ msg)])"
  unfolding titanoboa_def SharedLibs_init_def Let_def
  using assms by simp

lemma titanoboa_abort:
  assumes "sqlite3_connect e ''app.db'' = None"
    and "fst (auto_discover_and_register e (started e project es)) = Inl x"
  shows "titanoboa e project es =
    (Inl x, effects (snd (auto_discover_and_register e (started e project es))))"
proof -
  obtain r app1 where d: "auto_discover_and_register e (started e project es) = (r, app1)"
    by (cases "auto_discover_and_register e (started e project es)")
  with assms(2) have r: "r = Inl x" by simp
  show ?thesis
    unfolding titanoboa_def SharedLibs_init_def Let_def
    using assms(1) d [unfolded started_def] r by (simp add: started_def)
qed

lemma titanoboa_connected:
  assumes "sqlite3_connect e ''app.db'' = None"
    and "fst (auto_discover_and_register e (started e project es)) = Inr ()"
  shows "titanoboa e project es =
    (fst (run_all e (Client_start (Server_start
            (snd (auto_discover_and_register e (started e project es)))))),
     effects (snd (run_all e (Client_start (Server_start
            (snd (auto_discover_and_register e (started e project es))))))))"
proof -
  obtain r app1 where d: "auto_discover_and_register e (started e project es) = (r, app1)"
    by (cases "auto_discover_and_register e (started e project es)")
  with assms(2) have r: "r = Inr ()" by simp
  show ?thesis
    unfolding titanoboa_def SharedLibs_init_def Let_def
    using assms(1) d [unfolded started_def] r by (simp add: started_def case_prod_beta)
qed

lemma run_all_result:
  assumes "distinct (map fst (modules s))"
  shows "run_all e s =
           (dispatch_outcome (\<lambda>m. await_run e m (shared_libs s) [] []) (map snd (modules s)),
            s\<lparr>effects := effects s @ map (\<lambda>m. AwaitRun m (shared_libs s) [] [])
              (reached (\<lambda>m. isl (await_run e m (shared_libs s) [] [])) (map snd (modules s)))\<rparr>)"
proof -
  from assms have hits: "\<forall>p\<in>set (modules s). map_of (modules s) (fst p) = Some (snd p)"
    by (auto intro: map_of_is_SomeI)
  from run_names_trace [OF hits, of e] run_names_outcome [OF hits, of e] show ?thesis
    unfolding run_all_def by (simp add: prod_eq_iff)
qed

lemma demo_generation:
  assumes walk: "os_walk e ''./'' =
      [(''./'', [''models'', ''1_core''], [''main.py'']),
       (''./models'', [], [''a_orchestrate.py'', ''notes.txt'']),
       (''./1_core'', [], [''x.py'', ''y.py''])]"
    and op: "open_w e = (\<lambda>p. None)"
  shows "generate_orchestrators e ''./'' (es @ [Log INFO ''Initializing project: demo'']) =
     es @ [Log INFO ''Initializing project: demo'',
           Log INFO ''Generating orchestrators for: ./'',
           OpenForWrite ''./_orchestrate_1.py'',
           Log ERROR ''Failed to create orchestrator: list index out of range'',
           OpenForWrite ''./1_core/1_orchestrate_2.py'',
           Log INFO ''Orchestrator 1_orchestrate_2.py generated successfully.'']"
proof -
  have one: "generate_folder e xs (''./'', [''models'', ''1_core''], [''main.py'']) =
      xs @ [OpenForWrite ''./_orchestrate_1.py'',
            Log ERROR ''Failed to create orchestrator: list index out of range'']" for xs
    by (simp add: generate_folder_def op endswith_def basename_def path_join_def
        str_nat.simps digit_char_def)
  have two: "generate_folder e xs (''./models'', [], [''a_orchestrate.py'', ''notes.txt'']) = xs"
    for xs
    by (simp add: generate_folder_def endswith_def)
  have three: "generate_folder e xs (''./1_core'', [], [''x.py'', ''y.py'']) =
      xs @ [OpenForWrite ''./1_core/1_orchestrate_2.py'',
            Log INFO ''Orchestrator 1_orchestrate_2.py generated successfully.'']" for xs
    by (simp add: generate_folder_def op endswith_def basename_def path_join_def
        str_nat.simps digit_char_def)
  show ?thesis
    by (simp add: generate_orchestrators_def walk one two three)
qed

lemma quiet_generation:
  "generate_orchestrators quiet_env ''./'' (es @ [Log INFO ''Initializing project: demo'']) =
     es @ [Log INFO ''Initializing project: demo'',
           Log INFO ''Generating orchestrators for: ./'',
           OpenForWrite ''./_orchestrate_1.py'',
           Log ERROR ''Failed to create orchestrator: list index out of range'',
           OpenForWrite ''./1_core/1_orchestrate_2.py'',
           Log INFO ''Orchestrator 1_orchestrate_2.py generated successfully.'']"
  by (rule demo_generation) (simp_all add: quiet_env_def demo_env_def)

lemma demo_started:
  assumes "os_walk e ''./'' =
      [(''./'', [''models'', ''1_core''], [''main.py'']),
       (''./models'', [], [''a_orchestrate.py'', ''notes.txt'']),
       (''./1_core'', [], [''x.py'', ''y.py''])]"
    and "open_w e = (\<lambda>p. None)"
    and "new_shared_libs e = 7"
  shows "started e ''demo'' [] =
      \<lparr>shared_libs = 7, modules = [],
       module_types = [''models'', ''controllers'', ''services'', ''utils'', ''security''],
       effects = [Log INFO ''Initializing project: demo'',
         Log INFO ''Generating orchestrators for: ./'',
         OpenForWrite ''./_orchestrate_1.py'',
         Log ERROR ''Failed to create orchestrator: list index out of range'',
         OpenForWrite ''./1_core/1_orchestrate_2.py'',
         Log INFO ''Orchestrator 1_orchestrate_2.py generated successfully.'',
         Log INFO ''Setting up logger...'',
         Log INFO ''Database connected successfully.'',
         Log INFO ''Framework initialized successfully.'']\<rparr>"
  using demo_generation [OF assms(1,2), of "[]"] assms(3)
  by (simp add: started_def Framework_init_def logging_info_def)

lemma quiet_started:
  "started quiet_env ''demo'' [] =
      \<lparr>shared_libs = 7, modules = [],
       module_types = [''models'', ''controllers'', ''services'', ''utils'', ''security''],
       effects = [Log INFO ''Initializing project: demo'',
         Log INFO ''Generating orchestrators for: ./'',
         OpenForWrite ''./_orchestrate_1.py'',
         Log ERROR ''Failed to create orchestrator: list index out of range'',
         OpenForWrite ''./1_core/1_orchestrate_2.py'',
         Log INFO ''Orchestrator 1_orchestrate_2.py generated successfully.'',
         Log INFO ''Setting up logger...'',
         Log INFO ''Database connected successfully.'',
         Log INFO ''Framework initialized successfully.'']\<rparr>"
  by (rule demo_started) (simp_all add: quiet_env_def demo_env_def)

lemma quiet_discovered:
  "auto_discover_and_register quiet_env (Framework_init 7 es) =
     (Inr (), (Framework_init 7 es)
        \<lparr>modules := [(''models.a_orchestrate'', 1), (''models.c_orchestrate'', 3),
                     (''utils.u_orchestrate'', 4)],
         effects := effects (Framework_init 7 es) @
           [Log INFO ''Module models.a_orchestrate registered successfully.'',
            Log ERROR ''Failed to load models.b_orchestrate: No module'',
            Log INFO ''Module models.c_orchestrate registered successfully.'',
            Log INFO ''Module utils.u_orchestrate registered successfully.'']\<rparr>)"
proof -
  have "path_exists quiet_env = path_exists demo_env"
    and "\<forall>p. map_sum id mset (listdir quiet_env p) = map_sum id mset (listdir demo_env p)"
    and "import_module quiet_env = import_module demo_env"
    by (simp_all add: quiet_env_def)
  then have "auto_discover_and_register quiet_env (Framework_init 7 es) =
      auto_discover_and_register demo_env (Framework_init 7 es)"
    unfolding auto_discover_and_register_def by (rule discover_types_cong)
  with demo_discovered [of es] show ?thesis by simp
qed

lemma quiet_trace:
  "main quiet_env ''init'' ''demo'' [] =
     (Inr (),
      [Log INFO ''Initializing project: demo'',
       Log INFO ''Generating orchestrators for: ./'',
       OpenForWrite ''./_orchestrate_1.py'',
       Log ERROR ''Failed to create orchestrator: list index out of range'',
       OpenForWrite ''./1_core/1_orchestrate_2.py'',
       Log INFO ''Orchestrator 1_orchestrate_2.py generated successfully.'',
       Log INFO ''Setting up logger...'',
       Log INFO ''Database connected successfully.'',
       Log INFO ''Framework initialized successfully.'',
       Log INFO ''Module models.a_orchestrate registered successfully.'',
       Log ERROR ''Failed to load models.b_orchestrate: No module'',
       Log INFO ''Module models.c_orchestrate registered successfully.'',
       Log INFO ''Module utils.u_orchestrate registered successfully.'',
       Log INFO ''Starting server...'', ThreadStart Server,
       Log INFO ''Starting client...'', ThreadStart Client,
       AwaitRun 1 7 [] [], AwaitRun 3 7 [] [], AwaitRun 4 7 [] []])"
proof -
  have ok: "sqlite3_connect quiet_env ''app.db'' = None"
    and runs: "await_run quiet_env = (\<lambda>m c args kwargs. Inr ())"
    by (simp_all add: quiet_env_def demo_env_def)
  have d: "auto_discover_and_register quiet_env (started quiet_env ''demo'' []) =
     (Inr (), (started quiet_env ''demo'' [])
        \<lparr>modules := [(''models.a_orchestrate'', 1), (''models.c_orchestrate'', 3),
                     (''utils.u_orchestrate'', 4)],
         effects := effects (started quiet_env ''demo'' []) @
           [Log INFO ''Module models.a_orchestrate registered successfully.'',
            Log ERROR ''Failed to load models.b_orchestrate: No module'',
            Log INFO ''Module models.c_orchestrate registered successfully.'',
            Log INFO ''Module utils.u_orchestrate registered successfully.'']\<rparr>)"
    using quiet_discovered unfolding started_def by (simp add: quiet_env_def demo_env_def)
  then have "fst (auto_discover_and_register quiet_env (started quiet_env ''demo'' [])) = Inr ()"
    by simp
  from titanoboa_connected [OF ok this] show ?thesis
    unfolding main_def d
    by (simp add: quiet_started runs Server_start_def Client_start_def logging_info_def
        run_all_def run_module_def)
qed

text \<open>
  On \<open>init\<close> the two threads are started before the first unit is dispatched, not after
  the last one.
\<close>

theorem threads_before_dispatch_counterexample:
  "\<not> dispatch_before_threads (snd (main quiet_env ''init'' ''demo'' []))"
  by (simp add: quiet_trace dispatch_before_threads_def)

text \<open>
  C8 (as amended). For every parsed command other than \<open>init\<close>, \<open>main\<close> starts nothing and
  logs the error \<open>Unknown command\<close>. On \<open>init\<close> it runs the start-up in this order:
  generation (its records and the files it opens), construction of the shared libraries,
  construction of the framework, discovery and registration (which only logs), the start
  of the server thread and of the client thread, and only then the dispatch of the
  registered units in registration order, up to the first one that raises, whose exception
  is the outcome. The start-up ends early in two cases: when the database connection
  fails, after the shared libraries, with \<open>sys.exit(1)\<close> and a logged error; and when
  discovery is ended by an exception, with that exception, before any thread is started
  or any unit dispatched.
\<close>

theorem main_startup_order:
  "(command \<noteq> ''init'' \<longrightarrow>
      main e command project es = (Inr (), es @ [Log ERROR ''Unknown command''])) \<and>
   (\<exists>gen. list_all is_generation gen \<and>
      generate_orchestrators e ''./'' (es @ [Log INFO (''Initializing project: '' @ project)]) =
        es @ [Log INFO (''Initializing project: '' @ project),
              Log INFO ''Generating orchestrators for: ./''] @ gen \<and>
      (\<forall>msg. sqlite3_connect e ''app.db'' = Some msg \<longrightarrow>
         main e ''init'' project es =
           (Inl (SystemExit 1),
            es @ [Log INFO (''Initializing project: '' @ project),
                  Log INFO ''Generating orchestrators for: ./''] @ gen @
            [Log INFO ''Setting up logger...'',
             Log ERROR (''Error connecting to the database: '' @ msg)])) \<and>
      (sqlite3_connect e ''app.db'' = None \<longrightarrow>
         effects (started e project es) =
           es @ [Log INFO (''Initializing project: '' @ project),
                 Log INFO ''Generating orchestrators for: ./''] @ gen @
           [Log INFO ''Setting up logger...'',
            Log INFO ''Database connected successfully.'',
            Log INFO ''Framework initialized successfully.''] \<and>
         (\<exists>found.
            list_all is_log found \<and>
            effects (snd (auto_discover_and_register e (started e project es))) =
              effects (started e project es) @ found \<and>
            (\<forall>x. fst (auto_discover_and_register e (started e project es)) = Inl x \<longrightarrow>
               main e ''init'' project es = (Inl x, effects (started e project es) @ found)) \<and>
            (fst (auto_discover_and_register e (started e project es)) = Inr () \<longrightarrow>
               main e ''init'' project es =
                 (dispatch_outcome (\<lambda>m. await_run e m (new_shared_libs e) [] [])
                    (map snd (modules (snd (auto_discover_and_register e (started e project es))))),
                  effects (started e project es) @ found @
                  [Log INFO ''Starting server...'', ThreadStart Server,
                   Log INFO ''Starting client...'', ThreadStart Client] @
                  map (\<lambda>m. AwaitRun m (new_shared_libs e) [] [])
                    (reached (\<lambda>m. isl (await_run e m (new_shared_libs e) [] []))
                       (map snd (modules (snd (auto_discover_and_register e
                          (started e project es)))))))))))"
proof -
  let ?init = "Log INFO (''Initializing project: '' @ project)"
  let ?S = "started e project es"
  let ?D = "auto_discover_and_register e ?S"
  let ?threads = "[Log INFO ''Starting server...'', ThreadStart Server,
                   Log INFO ''Starting client...'', ThreadStart Client]"
  have other: "command \<noteq> ''init'' \<longrightarrow>
      main e command project es = (Inr (), es @ [Log ERROR ''Unknown command''])"
    by (simp add: main_def)
  from generate_orchestrators_shape [of e "''./''" "es @ [?init]"]
  obtain gen where gen: "list_all is_generation gen"
    and g: "generate_orchestrators e ''./'' (es @ [?init]) =
        es @ [?init, Log INFO ''Generating orchestrators for: ./''] @ gen"
    by auto
  have exit: "main e ''init'' project es =
           (Inl (SystemExit 1),
            es @ [?init, Log INFO ''Generating orchestrators for: ./''] @ gen @
            [Log INFO ''Setting up logger...'',
             Log ERROR (''Error connecting to the database: '' @ msg)])"
    if "sqlite3_connect e ''app.db'' = Some msg" for msg
    using titanoboa_exit [OF that, of project es] unfolding main_def g by simp
  have S: "effects ?S =
           es @ [?init, Log INFO ''Generating orchestrators for: ./''] @ gen @
           [Log INFO ''Setting up logger...'',
            Log INFO ''Database connected successfully.'',
            Log INFO ''Framework initialized successfully.'']"
    and S0: "modules ?S = []" "shared_libs ?S = new_shared_libs e"
    unfolding started_def g by (simp_all add: Framework_init_def logging_info_def)
  from discover_types_only_logs [of ?S e "module_types ?S"]
  have "only_logs ?S (snd ?D)"
    by (simp only: auto_discover_and_register_def)
  with S0 obtain found where found: "list_all is_log found"
    and D: "effects (snd ?D) = effects ?S @ found"
    and libs: "shared_libs (snd ?D) = new_shared_libs e"
    and keys: "distinct (map fst (modules (snd ?D)))"
    by (auto simp: only_logs_def)
  have abort: "main e ''init'' project es = (Inl x, effects ?S @ found)"
    if "sqlite3_connect e ''app.db'' = None" and "fst ?D = Inl x" for x
    using titanoboa_abort [OF that] by (simp add: main_def D)
  have run: "main e ''init'' project es =
                 (dispatch_outcome (\<lambda>m. await_run e m (new_shared_libs e) [] [])
                    (map snd (modules (snd ?D))),
                  effects ?S @ found @ ?threads @
                  map (\<lambda>m. AwaitRun m (new_shared_libs e) [] [])
                    (reached (\<lambda>m. isl (await_run e m (new_shared_libs e) [] []))
                       (map snd (modules (snd ?D)))))"
    if ok: "sqlite3_connect e ''app.db'' = None" and ret: "fst ?D = Inr ()"
  proof -
    let ?s3 = "Client_start (Server_start (snd ?D))"
    have s3: "modules ?s3 = modules (snd ?D)" "shared_libs ?s3 = new_shared_libs e"
      "effects ?s3 = effects ?S @ found @ ?threads"
      by (simp_all add: Client_start_def Server_start_def logging_info_def libs D)
    from keys have "distinct (map fst (modules ?s3))"
      by (simp only: s3)
    from run_all_result [OF this, of e] titanoboa_connected [OF ok ret] show ?thesis
      by (simp add: main_def s3)
  qed
  have inner: "\<exists>found.
            list_all is_log found \<and>
            effects (snd ?D) = effects ?S @ found \<and>
            (\<forall>x. fst ?D = Inl x \<longrightarrow>
               main e ''init'' project es = (Inl x, effects ?S @ found)) \<and>
            (fst ?D = Inr () \<longrightarrow>
               main e ''init'' project es =
                 (dispatch_outcome (\<lambda>m. await_run e m (new_shared_libs e) [] [])
                    (map snd (modules (snd ?D))),
                  effects ?S @ found @ ?threads @
                  map (\<lambda>m. AwaitRun m (new_shared_libs e) [] [])
                    (reached (\<lambda>m. isl (await_run e m (new_shared_libs e) [] []))
                       (map snd (modules (snd ?D))))))"
    if ok: "sqlite3_connect e ''app.db'' = None"
  proof (intro exI [of _ found] conjI allI impI)
    show "list_all is_log found" by (rule found)
    show "effects (snd ?D) = effects ?S @ found" by (rule D)
    show "main e ''init'' project es = (Inl x, effects ?S @ found)" if "fst ?D = Inl x" for x
      using abort [OF ok that] .
    show "main e ''init'' project es =
                 (dispatch_outcome (\<lambda>m. await_run e m (new_shared_libs e) [] [])
                    (map snd (modules (snd ?D))),
                  effects ?S @ found @ ?threads @
                  map (\<lambda>m. AwaitRun m (new_shared_libs e) [] [])
                    (reached (\<lambda>m. isl (await_run e m (new_shared_libs e) [] []))
                       (map snd (modules (snd ?D)))))" if "fst ?D = Inr ()"
      using run [OF ok that] .
  qed
  show ?thesis
  proof (rule conjI)
    show "command \<noteq> ''init'' \<longrightarrow>
      main e command project es = (Inr (), es @ [Log ERROR ''Unknown command''])"
      by (rule other)
    show "\<exists>gen. list_all is_generation gen \<and>
      generate_orchestrators e ''./'' (es @ [?init]) =
        es @ [?init, Log INFO ''Generating orchestrators for: ./''] @ gen \<and>
      (\<forall>msg. sqlite3_connect e ''app.db'' = Some msg \<longrightarrow>
         main e ''init'' project es =
           (Inl (SystemExit 1),
            es @ [?init, Log INFO ''Generating orchestrators for: ./''] @ gen @
            [Log INFO ''Setting up logger...'',
             Log ERROR (''Error connecting to the database: '' @ msg)])) \<and>
      (sqlite3_connect e ''app.db'' = None \<longrightarrow>
         effects ?S =
           es @ [?init, Log INFO ''Generating orchestrators for: ./''] @ gen @
           [Log INFO ''Setting up logger...'',
            Log INFO ''Database connected successfully.'',
            Log INFO ''Framework initialized successfully.''] \<and>
         (\<exists>found.
            list_all is_log found \<and>
            effects (snd ?D) = effects ?S @ found \<and>
            (\<forall>x. fst ?D = Inl x \<longrightarrow>
               main e ''init'' project es = (Inl x, effects ?S @ found)) \<and>
            (fst ?D = Inr () \<longrightarrow>
               main e ''init'' project es =
                 (dispatch_outcome (\<lambda>m. await_run e m (new_shared_libs e) [] [])
                    (map snd (modules (snd ?D))),
                  effects ?S @ found @ ?threads @
                  map (\<lambda>m. AwaitRun m (new_shared_libs e) [] [])
                    (reached (\<lambda>m. isl (await_run e m (new_shared_libs e) [] []))
                       (map snd (modules (snd ?D))))))))"
    proof (rule exI [of _ gen], intro conjI)
      show "list_all is_generation gen" by (rule gen)
      show "generate_orchestrators e ''./'' (es @ [?init]) =
        es @ [?init, Log INFO ''Generating orchestrators for: ./''] @ gen" by (rule g)
      show "\<forall>msg. sqlite3_connect e ''app.db'' = Some msg \<longrightarrow>
         main e ''init'' project es =
           (Inl (SystemExit 1),
            es @ [?init, Log INFO ''Generating orchestrators for: ./''] @ gen @
            [Log INFO ''Setting up logger...'',
             Log ERROR (''Error connecting to the database: '' @ msg)])"
        using exit by (intro allI impI)
      show "sqlite3_connect e ''app.db'' = None \<longrightarrow>
         effects ?S =
           es @ [?init, Log INFO ''Generating orchestrators for: ./''] @ gen @
           [Log INFO ''Setting up logger...'',
            Log INFO ''Database connected successfully.'',
            Log INFO ''Framework initialized successfully.''] \<and>
         (\<exists>found.
            list_all is_log found \<and>
            effects (snd ?D) = effects ?S @ found \<and>
            (\<forall>x. fst ?D = Inl x \<longrightarrow>
               main e ''init'' project es = (Inl x, effects ?S @ found)) \<and>
            (fst ?D = Inr () \<longrightarrow>
               main e ''init'' project es =
                 (dispatch_outcome (\<lambda>m. await_run e m (new_shared_libs e) [] [])
                    (map snd (modules (snd ?D))),
                  effects ?S @ found @ ?threads @
                  map (\<lambda>m. AwaitRun m (new_shared_libs e) [] [])
                    (reached (\<lambda>m. isl (await_run e m (new_shared_libs e) [] []))
                       (map snd (modules (snd ?D)))))))"
        using S inner by (intro impI conjI)
    qed
  qed
qed

lemma nodb_trace:
  "main (quiet_env\<lparr>sqlite3_connect := \<lambda>db. Some ''unable to open database file''\<rparr>)
        ''init'' ''demo'' [] =
     (Inl (SystemExit 1),
      [Log INFO ''Initializing project: demo'',
       Log INFO ''Generating orchestrators for: ./'',
       OpenForWrite ''./_orchestrate_1.py'',
       Log ERROR ''Failed to create orchestrator: list index out of range'',
       OpenForWrite ''./1_core/1_orchestrate_2.py'',
       Log INFO ''Orchestrator 1_orchestrate_2.py generated successfully.'',
       Log INFO ''Setting up logger...'',
       Log ERROR ''Error connecting to the database: unable to open database file''])"
proof -
  let ?e = "quiet_env\<lparr>sqlite3_connect := \<lambda>db. Some ''unable to open database file''\<rparr>"
  have no: "sqlite3_connect ?e ''app.db'' = Some ''unable to open database file''"
    by simp
  have gen: "generate_orchestrators ?e ''./'' [Log INFO ''Initializing project: demo''] =
     [Log INFO ''Initializing project: demo'',
      Log INFO ''Generating orchestrators for: ./'',
      OpenForWrite ''./_orchestrate_1.py'',
      Log ERROR ''Failed to create orchestrator: list index out of range'',
      OpenForWrite ''./1_core/1_orchestrate_2.py'',
      Log INFO ''Orchestrator 1_orchestrate_2.py generated successfully.'']"
    using demo_generation [of ?e "[]"] by (simp add: quiet_env_def demo_env_def)
  from titanoboa_exit [OF no, of "''demo''" "[]"] show ?thesis
    by (simp add: main_def gen)
qed

lemma exit_trace:
  "main exit_env ''init'' ''demo'' [] =
     (Inl (SystemExit 1),
      [Log INFO ''Initializing project: demo'',
       Log INFO ''Generating orchestrators for: ./'',
       OpenForWrite ''./_orchestrate_1.py'',
       Log ERROR ''Failed to create orchestrator: list index out of range'',
       OpenForWrite ''./1_core/1_orchestrate_2.py'',
       Log INFO ''Orchestrator 1_orchestrate_2.py generated successfully.'',
       Log INFO ''Setting up logger...'',
       Log INFO ''Database connected successfully.'',
       Log INFO ''Framework initialized successfully.''])"
proof -
  have ok: "sqlite3_connect exit_env ''app.db'' = None"
    and libs: "new_shared_libs exit_env = 7"
    by (simp_all add: exit_env_def demo_env_def)
  have s: "started exit_env ''demo'' [] =
      \<lparr>shared_libs = 7, modules = [],
       module_types = [''models'', ''controllers'', ''services'', ''utils'', ''security''],
       effects = [Log INFO ''Initializing project: demo'',
         Log INFO ''Generating orchestrators for: ./'',
         OpenForWrite ''./_orchestrate_1.py'',
         Log ERROR ''Failed to create orchestrator: list index out of range'',
         OpenForWrite ''./1_core/1_orchestrate_2.py'',
         Log INFO ''Orchestrator 1_orchestrate_2.py generated successfully.'',
         Log INFO ''Setting up logger...'',
         Log INFO ''Database connected successfully.'',
         Log INFO ''Framework initialized successfully.'']\<rparr>"
    by (rule demo_started) (simp_all add: exit_env_def demo_env_def)
  have d: "auto_discover_and_register exit_env (started exit_env ''demo'' []) =
      (Inl (SystemExit 1), started exit_env ''demo'' [])"
    unfolding started_def libs by (rule exit_discovered)
  then have "fst (auto_discover_and_register exit_env (started exit_env ''demo'' [])) =
      Inl (SystemExit 1)"
    by simp
  from titanoboa_abort [OF ok this] show ?thesis
    unfolding main_def d by (simp add: s)
qed

theorem main_startup_order_witness:
  "main quiet_env ''run'' ''demo'' [] = (Inr (), [Log ERROR ''Unknown command'']) \<and>
   main (quiet_env\<lparr>sqlite3_connect := \<lambda>db. Some ''unable to open database file''\<rparr>)
        ''init'' ''demo'' [] =
     (Inl (SystemExit 1),
      [Log INFO ''Initializing project: demo'',
       Log INFO ''Generating orchestrators for: ./'',
       OpenForWrite ''./_orchestrate_1.py'',
       Log ERROR ''Failed to create orchestrator: list index out of range'',
       OpenForWrite ''./1_core/1_orchestrate_2.py'',
       Log INFO ''Orchestrator 1_orchestrate_2.py generated successfully.'',
       Log INFO ''Setting up logger...'',
       Log ERROR ''Error connecting to the database: unable to open database file'']) \<and>
   sqlite3_connect exit_env ''app.db'' = None \<and>
   fst (auto_discover_and_register exit_env (started exit_env ''demo'' [])) = Inl (SystemExit 1) \<and>
   main exit_env ''init'' ''demo'' [] =
     (Inl (SystemExit 1),
      [Log INFO ''Initializing project: demo'',
       Log INFO ''Generating orchestrators for: ./'',
       OpenForWrite ''./_orchestrate_1.py'',
       Log ERROR ''Failed to create orchestrator: list index out of range'',
       OpenForWrite ''./1_core/1_orchestrate_2.py'',
       Log INFO ''Orchestrator 1_orchestrate_2.py generated successfully.'',
       Log INFO ''Setting up logger...'',
       Log INFO ''Database connected successfully.'',
       Log INFO ''Framework initialized successfully.'']) \<and>
   sqlite3_connect quiet_env ''app.db'' = None \<and>
   main quiet_env ''init'' ''demo'' [] =
     (Inr (),
      [Log INFO ''Initializing project: demo'',
       Log INFO ''Generating orchestrators for: ./'',
       OpenForWrite ''./_orchestrate_1.py'',
       Log ERROR ''Failed to create orchestrator: list index out of range'',
       OpenForWrite ''./1_core/1_orchestrate_2.py'',
       Log INFO ''Orchestrator 1_orchestrate_2.py generated successfully.'',
       Log INFO ''Setting up logger...'',
       Log INFO ''Database connected successfully.'',
       Log INFO ''Framework initialized successfully.'',
       Log INFO ''Module models.a_orchestrate registered successfully.'',
       Log ERROR ''Failed to load models.b_orchestrate: No module'',
       Log INFO ''Module models.c_orchestrate registered successfully.'',
       Log INFO ''Module utils.u_orchestrate registered successfully.'',
       Log INFO ''Starting server...'', ThreadStart Server,
       Log INFO ''Starting client...'', ThreadStart Client,
       AwaitRun 1 7 [] [], AwaitRun 3 7 [] [], AwaitRun 4 7 [] []])"
proof -
  from main_startup_order [of "''run''" quiet_env "''demo''" "[]"]
  have a: "main quiet_env ''run'' ''demo'' [] = (Inr (), [Log ERROR ''Unknown command''])"
    by simp
  have ok: "sqlite3_connect exit_env ''app.db'' = None"
    "sqlite3_connect quiet_env ''app.db'' = None"
    and libs: "new_shared_libs exit_env = 7"
    by (simp_all add: exit_env_def quiet_env_def demo_env_def)
  have d: "fst (auto_discover_and_register exit_env (started exit_env ''demo'' [])) =
      Inl (SystemExit 1)"
    unfolding started_def libs by (simp add: exit_discovered)
  from a nodb_trace ok d exit_trace quiet_trace show ?thesis
    by (intro conjI)
qed

end
